theory Spec2Isabelle
  imports Main
begin

section \<open>JavaScript strings\<close>

text \<open>
  A JavaScript string is a sequence of UTF-16 code units. The regular expression of
  \<^verbatim>\<open>parseBuildZigZon\<close> is not in unicode mode, so it works on code units, and so do
  \<^verbatim>\<open>String.length\<close> and the offsets of a text document. ASCII literals of the source
  are written \<open>cu ''...''\<close>.
\<close>

type_synonym jsstring = "nat list"

definition cu :: "string \<Rightarrow> jsstring" where
  "cu s = map of_char s"

section \<open>The semver library\<close>

text \<open>
  \<^verbatim>\<open>semver.SemVer\<close> objects, with what the source reads of them: \<^verbatim>\<open>raw\<close> is the string
  the version was parsed from, \<^verbatim>\<open>version\<close> is what \<^verbatim>\<open>toString()\<close> returns. The functions
  \<^verbatim>\<open>semver.parse\<close> and \<^verbatim>\<open>semver.gte\<close> of the library are parameters of the functions
  that call them.
\<close>

record SemVer =
  raw :: jsstring
  version :: jsstring

definition toString :: "SemVer \<Rightarrow> jsstring" where
  "toString v = version v"

section \<open>The editor's workspace and text documents\<close>

type_synonym uri = string

text \<open>\<^verbatim>\<open>vscode.Uri.joinPath(base, segment)\<close> for a folder URI and a plain file name.\<close>

definition joinPath :: "uri \<Rightarrow> string \<Rightarrow> uri" where
  "joinPath base seg = base @ ''/'' @ seg"

datatype Position = Position (line: nat) (character: nat)

datatype Range = Range (start: Position) (stop: Position)

text \<open>\<^verbatim>\<open>position.translate(lineDelta, characterDelta)\<close> with non-negative deltas.\<close>

definition translate :: "Position \<Rightarrow> nat \<Rightarrow> nat \<Rightarrow> Position" where
  "translate p lineDelta characterDelta =
     Position (line p + lineDelta) (character p + characterDelta)"

text \<open>
  A text document is held by the editor as its lines (without line ends) and one
  end-of-line sequence; \<^verbatim>\<open>getText()\<close> joins the lines with it.
\<close>

datatype EndOfLine = LF | CRLF

fun eol_text :: "EndOfLine \<Rightarrow> jsstring" where
  "eol_text LF = [10]"
| "eol_text CRLF = [13, 10]"

record TextDocument =
  doc_uri :: uri
  doc_lines :: "jsstring list"
  eol :: EndOfLine

fun join_lines :: "jsstring \<Rightarrow> jsstring list \<Rightarrow> jsstring" where
  "join_lines e [] = []"
| "join_lines e [l] = l"
| "join_lines e (l # l' # ls) = l @ e @ join_lines e (l' # ls)"

definition getText :: "TextDocument \<Rightarrow> jsstring" where
  "getText d = join_lines (eol_text (eol d)) (doc_lines d)"

text \<open>
  \<^verbatim>\<open>document.positionAt(offset)\<close>: the line whose span (the line and its line end)
  holds the offset, and the column, clamped to the length of the line. An offset past
  the end gives the end of the last line.
\<close>

fun position_in :: "jsstring list \<Rightarrow> nat \<Rightarrow> nat \<Rightarrow> nat \<Rightarrow> Position" where
  "position_in [] n off i = Position i 0"
| "position_in [l] n off i = Position i (min off (length l))"
| "position_in (l # l' # ls) n off i =
     (if off < length l + n then Position i (min off (length l))
      else position_in (l' # ls) n (off - (length l + n)) (Suc i))"

definition positionAt :: "TextDocument \<Rightarrow> nat \<Rightarrow> Position" where
  "positionAt d off = position_in (doc_lines d) (length (eol_text (eol d))) off 0"

text \<open>
  \<^verbatim>\<open>document.offsetAt(position)\<close>: the offset in \<^verbatim>\<open>getText()\<close> of a position, which
  is first brought into the document (a line past the last is the end of the last line,
  a column past the end of its line is the end of that line).
\<close>

fun offset_in :: "jsstring list \<Rightarrow> nat \<Rightarrow> nat \<Rightarrow> nat \<Rightarrow> nat" where
  "offset_in [] n l c = 0"
| "offset_in [x] n l c = (if l = 0 then min c (length x) else length x)"
| "offset_in (x # y # ys) n 0 c = min c (length x)"
| "offset_in (x # y # ys) n (Suc l) c = length x + n + offset_in (y # ys) n l c"

definition offsetAt :: "TextDocument \<Rightarrow> Position \<Rightarrow> nat" where
  "offsetAt d p =
     offset_in (doc_lines d) (length (eol_text (eol d))) (line p) (character p)"

text \<open>
  \<^verbatim>\<open>document.getText(range)\<close> for a range inside one line; \<open>None\<close> when the range is
  not inside one line of the document.
\<close>

definition getText_range :: "TextDocument \<Rightarrow> Range \<Rightarrow> jsstring option" where
  "getText_range d r =
     (let l = line (start r); c = character (start r); c' = character (stop r) in
      if line (stop r) = l \<and> l < length (doc_lines d) \<and> c \<le> c' \<and> c' \<le> length (doc_lines d ! l)
      then Some (take (c' - c) (drop c (doc_lines d ! l)))
      else None)"

record WorkspaceFolder =
  uri :: uri

text \<open>
  What the functions read of the editor: \<^verbatim>\<open>vscode.workspace.workspaceFolders\<close>
  (\<open>None\<close> is \<^verbatim>\<open>undefined\<close>) and the files that \<^verbatim>\<open>openTextDocument\<close> can open. The
  promise of \<^verbatim>\<open>openTextDocument\<close> rejects for a URI with no file.
\<close>

record Workspace =
  workspaceFolders :: "WorkspaceFolder list option"
  files :: "uri \<rightharpoonup> jsstring list \<times> EndOfLine"

definition openTextDocument :: "Workspace \<Rightarrow> uri \<Rightarrow> TextDocument option" where
  "openTextDocument w u =
     (case files w u of
        None \<Rightarrow> None
      | Some (ls, e) \<Rightarrow> Some \<lparr>doc_uri = u, doc_lines = ls, eol = e\<rparr>)"

definition getWorkspaceFolder :: "Workspace \<Rightarrow> WorkspaceFolder option" where
  "getWorkspaceFolder w =
     (case workspaceFolders w of
        None \<Rightarrow> None
      | Some [] \<Rightarrow> None
      | Some (f # fs) \<Rightarrow> Some f)"

section \<open>The regular expression of \<^verbatim>\<open>parseBuildZigZon\<close>\<close>

text \<open>
  \<^verbatim>\<open>/\n\s*\.minimum_zig_version\s=\s\"(.*)\"/\<close>, matched as the JavaScript engine does:
  at the leftmost offset where a match exists, every quantifier greedy. \<^verbatim>\<open>\s\<close> is the
  white space and line terminators of ECMAScript, \<^verbatim>\<open>.\<close> is any code unit but a line
  terminator.
\<close>

definition isLineTerminator :: "nat \<Rightarrow> bool" where
  "isLineTerminator c = (c = 10 \<or> c = 13 \<or> c = 8232 \<or> c = 8233)"

definition isWhiteSpace :: "nat \<Rightarrow> bool" where
  "isWhiteSpace c =
     (c = 9 \<or> c = 10 \<or> c = 11 \<or> c = 12 \<or> c = 13 \<or> c = 32 \<or> c = 160 \<or> c = 5760 \<or>
      (8192 \<le> c \<and> c \<le> 8202) \<or> c = 8232 \<or> c = 8233 \<or> c = 8239 \<or> c = 8287 \<or>
      c = 12288 \<or> c = 65279)"

fun stripPrefix :: "'a list \<Rightarrow> 'a list \<Rightarrow> 'a list option" where
  "stripPrefix [] ys = Some ys"
| "stripPrefix (x # xs) [] = None"
| "stripPrefix (x # xs) (y # ys) = (if x = y then stripPrefix xs ys else None)"

fun lastIndexOf :: "'a \<Rightarrow> 'a list \<Rightarrow> nat option" where
  "lastIndexOf q [] = None"
| "lastIndexOf q (x # xs) =
     (case lastIndexOf q xs of
        Some j \<Rightarrow> Some (Suc j)
      | None \<Rightarrow> if x = q then Some 0 else None)"

text \<open>
  A match that starts at the head of \<open>s\<close>: the matched text and the group, or \<open>None\<close>.
  After the line feed \<^verbatim>\<open>\s*\<close> takes all the white space there is (giving some back
  cannot help: the next code unit has to be the full stop, which is no white space).
  \<^verbatim>\<open>(.*)\"\<close> takes the rest of the line and gives back up to the last double quote
  of it.
\<close>

definition match_at :: "jsstring \<Rightarrow> (jsstring \<times> jsstring) option" where
  "match_at s =
     (case s of
        [] \<Rightarrow> None
      | c # s1 \<Rightarrow>
          if c \<noteq> 10 then None
          else
            let ws = takeWhile isWhiteSpace s1; s2 = dropWhile isWhiteSpace s1 in
            (case stripPrefix (cu ''.minimum_zig_version'') s2 of
               None \<Rightarrow> None
             | Some s3 \<Rightarrow>
                 (case s3 of
                    w1 # e # w2 # q # s4 \<Rightarrow>
                      if isWhiteSpace w1 \<and> e = 61 \<and> isWhiteSpace w2 \<and> q = 34 then
                        (case lastIndexOf 34 (takeWhile (\<lambda>x. \<not> isLineTerminator x) s4) of
                           None \<Rightarrow> None
                         | Some j \<Rightarrow>
                             Some (c # ws @ cu ''.minimum_zig_version'' @ [w1, e, w2, q]
                                     @ take j s4 @ [34],
                                   take j s4))
                      else None
                  | _ \<Rightarrow> None)))"

text \<open>\<^verbatim>\<open>regex.exec(text)\<close>: \<^verbatim>\<open>matches.index\<close>, \<^verbatim>\<open>matches[0]\<close> and \<^verbatim>\<open>matches[1]\<close>.\<close>

fun exec_from :: "nat \<Rightarrow> jsstring \<Rightarrow> (nat \<times> jsstring \<times> jsstring) option" where
  "exec_from i [] = None"
| "exec_from i (c # cs) =
     (case match_at (c # cs) of
        Some (m0, g1) \<Rightarrow> Some (i, m0, g1)
      | None \<Rightarrow> exec_from (Suc i) cs)"

definition regex_exec :: "jsstring \<Rightarrow> (nat \<times> jsstring \<times> jsstring) option" where
  "regex_exec t = exec_from 0 t"

text \<open>
  What the regular expression can match at the head of \<open>s\<close>, read off its parts with no
  regard to the order in which the engine tries them: a line feed, white space, the
  name of the field, one white space, the equals sign, one white space, and between
  two double quotes a group with no line terminator in it. \<open>match_at\<close> is shown below
  to find a match exactly when there is one, and the longest one.
\<close>

definition regex_matches :: "jsstring \<Rightarrow> jsstring \<Rightarrow> jsstring \<Rightarrow> bool" where
  "regex_matches s m0 g =
     (\<exists>ws w1 w2 rest.
        m0 = 10 # ws @ cu ''.minimum_zig_version'' @ [w1, 61, w2, 34] @ g @ [34]
        \<and> s = m0 @ rest
        \<and> (\<forall>c\<in>set ws. isWhiteSpace c) \<and> isWhiteSpace w1 \<and> isWhiteSpace w2
        \<and> (\<forall>c\<in>set g. \<not> isLineTerminator c))"

section \<open>\<^verbatim>\<open>parseBuildZigZon\<close>\<close>

text \<open>
  What a promise rejects with: \<^verbatim>\<open>openTextDocument\<close> found no file, or the source's own
  \<^verbatim>\<open>throw new Error(message)\<close>.
\<close>

datatype error = OpenFailed uri | Thrown string

record BuildZigZonMetadata =
  document :: TextDocument
  minimumZigVersion :: SemVer
  minimumZigVersionSourceRange :: Range

text \<open>
  \<^verbatim>\<open>semver.parse\<close> is a parameter: it returns \<open>None\<close> (\<^verbatim>\<open>null\<close>) for a string that is no
  semantic version. \<open>Inl\<close> is the rejection of the promise.
\<close>

definition parseBuildZigZon ::
  "(jsstring \<Rightarrow> SemVer option) \<Rightarrow> Workspace \<Rightarrow> error + BuildZigZonMetadata option" where
  "parseBuildZigZon semver_parse w =
     (case getWorkspaceFolder w of
        None \<Rightarrow> Inr None
      | Some workspace \<Rightarrow>
          let manifestUri = joinPath (uri workspace) ''build.zig.zon'' in
          (case openTextDocument w manifestUri of
             None \<Rightarrow> Inl (OpenFailed manifestUri)
           | Some manifest \<Rightarrow>
               (case regex_exec (getText manifest) of
                  None \<Rightarrow> Inr None
                | Some (index, m0, versionString) \<Rightarrow>
                    (case semver_parse versionString of
                       None \<Rightarrow> Inr None
                     | Some v \<Rightarrow>
                         let startPosition =
                               positionAt manifest
                                 (index + length m0 - length versionString - 1);
                             endPosition = translate startPosition 0 (length versionString)
                         in Inr (Some \<lparr>document = manifest,
                                       minimumZigVersion = v,
                                       minimumZigVersionSourceRange =
                                         Range startPosition endPosition\<rparr>)))))"

section \<open>\<^verbatim>\<open>showUpdateWorkspaceVersionDialog\<close>\<close>

datatype WantedZigVersionSource =
  workspaceZigVersionFile | workspaceBuildZigZon | zigVersionConfigOption

text \<open>
  The edits the function applies: \<^verbatim>\<open>WorkspaceEdit.createFile(uri, {overwrite, contents})\<close>,
  \<^verbatim>\<open>WorkspaceEdit.replace(uri, range, text)\<close>, and the update of a key of the \<^verbatim>\<open>zig\<close>
  configuration (\<^verbatim>\<open>update(key, value, global)\<close>).
\<close>

datatype Edit =
  CreateFile uri bool jsstring
| Replace uri Range jsstring
| ConfigurationUpdate string jsstring bool

text \<open>JavaScript's truthiness of a string that may be \<^verbatim>\<open>undefined\<close> or \<^verbatim>\<open>null\<close>.\<close>

definition truthy :: "string option \<Rightarrow> bool" where
  "truthy s = (case s of None \<Rightarrow> False | Some x \<Rightarrow> x \<noteq> [])"

text \<open>
  \<^verbatim>\<open>showInformationMessage\<close> is a parameter: from the message and the button to the
  user's answer (\<open>None\<close> when the message is dismissed).
\<close>

definition showUpdateWorkspaceVersionDialog ::
  "(jsstring \<Rightarrow> string \<Rightarrow> string option) \<Rightarrow> (jsstring \<Rightarrow> SemVer option) \<Rightarrow> Workspace \<Rightarrow>
     SemVer \<Rightarrow> WantedZigVersionSource option \<Rightarrow> error + Edit list" where
  "showUpdateWorkspaceVersionDialog showInformationMessage semver_parse w v source =
     (let workspace = getWorkspaceFolder w;
          buttonName =
            (case source of
               Some workspaceZigVersionFile \<Rightarrow> ''update .zigversion''
             | Some workspaceBuildZigZon \<Rightarrow> ''update build.zig.zon''
             | Some zigVersionConfigOption \<Rightarrow> ''update workspace settings''
             | None \<Rightarrow> ''create .zigversion'')
      in
      if workspace \<noteq> None \<and>
         \<not> truthy (showInformationMessage
                     (cu ''Would you like to save Zig '' @ toString v @ cu '' in this workspace?'')
                     buttonName)
      then Inr []
      else
        (case (case source of
                 Some s \<Rightarrow> s
               | None \<Rightarrow> if workspace \<noteq> None then workspaceZigVersionFile
                         else zigVersionConfigOption) of
           workspaceZigVersionFile \<Rightarrow>
             (case workspace of
                None \<Rightarrow> Inl (Thrown ''failed to resolve workspace folder'')
              | Some ws \<Rightarrow> Inr [CreateFile (joinPath (uri ws) ''.zigversion'') True (raw v)])
         | workspaceBuildZigZon \<Rightarrow>
             (case parseBuildZigZon semver_parse w of
                Inl e \<Rightarrow> Inl e
              | Inr None \<Rightarrow> Inl (Thrown ''failed to parse build.zig.zon'')
              | Inr (Some metadata) \<Rightarrow>
                  Inr [Replace (doc_uri (document metadata))
                         (minimumZigVersionSourceRange metadata) (raw v)])
         | zigVersionConfigOption \<Rightarrow>
             Inr [ConfigurationUpdate ''version'' (raw v) (workspace = None)]))"

text \<open>The file an edit writes, if it writes a file.\<close>

fun edit_target :: "Edit \<Rightarrow> uri option" where
  "edit_target (CreateFile u overwrite contents) = Some u"
| "edit_target (Replace u r t) = Some u"
| "edit_target (ConfigurationUpdate k x g) = None"

section \<open>The status items and \<^verbatim>\<open>updateStatus\<close>\<close>

record Command =
  title :: string
  command :: string

datatype ThemeColor = ThemeColor string

record StatusBarItem =
  item_name :: jsstring
  item_text :: jsstring
  item_tooltip :: jsstring
  item_command :: "Command option"
  backgroundColor :: "ThemeColor option"

datatype LanguageStatusSeverity = Information | Warning | Error

record LanguageStatusItem =
  lang_name :: jsstring
  lang_text :: jsstring
  detail :: jsstring
  severity :: LanguageStatusSeverity
  lang_command :: "Command option"

definition updateStatusItem :: "StatusBarItem \<Rightarrow> SemVer option \<Rightarrow> StatusBarItem" where
  "updateStatusItem item v =
     item\<lparr>item_name := cu ''Zig Version'',
          item_text := (case v of Some x \<Rightarrow> toString x | None \<Rightarrow> cu ''not installed''),
          item_tooltip := cu ''Select Zig Version'',
          item_command := Some \<lparr>title = ''Select Version'', command = ''zig.install''\<rparr>,
          backgroundColor :=
            (case v of
               Some x \<Rightarrow> None
             | None \<Rightarrow> Some (ThemeColor ''statusBarItem.errorBackground''))\<rparr>"

definition updateLanguageStatusItem ::
  "LanguageStatusItem \<Rightarrow> SemVer option \<Rightarrow> LanguageStatusItem" where
  "updateLanguageStatusItem item v =
     (case v of
        Some x \<Rightarrow>
          item\<lparr>lang_name := cu ''Zig'',
               lang_text := cu ''Zig '' @ toString x,
               detail := cu ''Zig Version'',
               severity := Information,
               lang_command := Some \<lparr>title = ''Select Version'', command = ''zig.install''\<rparr>\<rparr>
      | None \<Rightarrow>
          item\<lparr>lang_name := cu ''Zig'',
               lang_text := cu ''Zig not installed'',
               severity := Error,
               lang_command := Some \<lparr>title = ''Select Version'', command = ''zig.install''\<rparr>\<rparr>)"

text \<open>
  \<^verbatim>\<open>context.environmentVariableCollection\<close>: for a variable, the value that is prepended
  to it. \<^verbatim>\<open>path.dirname\<close> and \<^verbatim>\<open>path.delimiter\<close> of the host are parameters.
\<close>

record NodePath =
  dirname :: "string \<Rightarrow> string"
  delimiter :: string

definition updateZigEnvironmentVariableCollection ::
  "NodePath \<Rightarrow> (string \<rightharpoonup> string) \<Rightarrow> string option \<Rightarrow> (string \<rightharpoonup> string)" where
  "updateZigEnvironmentVariableCollection np env zigExePath =
     (case zigExePath of
        None \<Rightarrow> env(''PATH'' := None)
      | Some p \<Rightarrow>
          if p \<noteq> [] then env(''PATH'' \<mapsto> dirname np p @ delimiter np)
          else env(''PATH'' := None))"

record WarningMessage =
  message :: jsstring
  items :: "string list"
  metadata :: BuildZigZonMetadata

record Ui =
  statusItem :: StatusBarItem
  languageStatusItem :: LanguageStatusItem
  environmentVariableCollection :: "string \<rightharpoonup> string"
  warningMessages :: "WarningMessage list"

text \<open>
  \<^verbatim>\<open>updateStatus\<close>, with what \<^verbatim>\<open>zigProvider.getZigVersion()\<close> and
  \<^verbatim>\<open>zigProvider.getZigPath()\<close> return as arguments, and with \<^verbatim>\<open>semver.parse\<close> and
  \<^verbatim>\<open>semver.gte\<close> as parameters. It returns the user interface as it leaves it and the
  error its promise rejects with, if it does.
\<close>

definition updateStatus ::
  "NodePath \<Rightarrow> (jsstring \<Rightarrow> SemVer option) \<Rightarrow> (SemVer \<Rightarrow> SemVer \<Rightarrow> bool) \<Rightarrow> Workspace \<Rightarrow>
     SemVer option \<Rightarrow> string option \<Rightarrow> Ui \<Rightarrow> Ui \<times> error option" where
  "updateStatus np semver_parse semver_gte w zigVersion zigPath ui =
     (let ui1 = ui\<lparr>statusItem := updateStatusItem (statusItem ui) zigVersion,
                    languageStatusItem :=
                      updateLanguageStatusItem (languageStatusItem ui) zigVersion,
                    environmentVariableCollection :=
                      updateZigEnvironmentVariableCollection np
                        (environmentVariableCollection ui) zigPath\<rparr>
      in
      case zigVersion of
        None \<Rightarrow> (ui1, None)
      | Some zv \<Rightarrow>
          if \<not> truthy zigPath then (ui1, None)
          else
            (case parseBuildZigZon semver_parse w of
               Inl e \<Rightarrow> (ui1, Some e)
             | Inr None \<Rightarrow> (ui1, None)
             | Inr (Some buildZigZonMetadata) \<Rightarrow>
                 if semver_gte zv (minimumZigVersion buildZigZonMetadata) then (ui1, None)
                 else
                   (ui1\<lparr>statusItem :=
                          (statusItem ui1)
                            \<lparr>backgroundColor :=
                               Some (ThemeColor ''statusBarItem.warningBackground'')\<rparr>,
                        warningMessages :=
                          warningMessages ui1 @
                            [\<lparr>message =
                                cu ''Your Zig version '' @ [39] @ toString zv @ [39]
                                @ cu '' does not satisfy the minimum Zig version '' @ [39]
                                @ toString (minimumZigVersion buildZigZonMetadata) @ [39]
                                @ cu '' of your project.'',
                              items = [''update Zig'', ''open build.zig.zon''],
                              metadata = buildZigZonMetadata\<rparr>]\<rparr>,
                    None)))"

section \<open>The events \<^verbatim>\<open>setupZig\<close> subscribes to\<close>

text \<open>
  The calls a handler makes. \<^verbatim>\<open>installZig\<close>, \<^verbatim>\<open>selectVersionAndInstall\<close> and
  \<^verbatim>\<open>zigProvider.set\<close> are named, not run. \<open>RefreshZigInstallation\<close> is a call of the
  debounced \<^verbatim>\<open>refreshZigInstallation\<close>.
\<close>

datatype Call =
  InstallZig
| UpdateStatus
| SelectVersionAndInstall
| ProviderSet string SemVer
| RefreshZigInstallation
| StatusItemShow
| StatusItemHide
| ShowTextDocument TextDocument Range

text \<open>
  The function that \<^verbatim>\<open>asyncDebounce\<close> wraps, with the value of the \<^verbatim>\<open>zig.path\<close>
  setting (\<open>None\<close> is \<^verbatim>\<open>undefined\<close>).
\<close>

definition refreshZigInstallation :: "string option \<Rightarrow> Call list" where
  "refreshZigInstallation zig_path =
     (if \<not> truthy zig_path then [InstallZig] else [UpdateStatus])"

text \<open>What \<^verbatim>\<open>zigProvider.resolveZigPathConfigOption()\<close> returns.\<close>

datatype ZigPathConfigOption = Undefined | Null | ExeWithVersion string SemVer

datatype FileEvent = DidCreate | DidChange | DidDelete

datatype Watcher = watcher1 | watcher2

text \<open>
  The events: a command, a change of configuration (with its
  \<^verbatim>\<open>affectsConfiguration\<close>), a change of the active editor (with the language of its
  document, \<open>None\<close> for no editor), a change of the provider, an event of one of the two
  file watchers (\<^verbatim>\<open>**/.zigversion\<close> and \<^verbatim>\<open>**/build.zig.zon\<close>), and the end of
  \<^verbatim>\<open>setupZig\<close> itself, which calls \<^verbatim>\<open>refreshZigInstallation\<close> once.
\<close>

datatype Event =
  CommandInvoked string
| DidChangeConfiguration "string \<Rightarrow> bool"
| DidChangeActiveTextEditor "string option"
| ProviderOnChange
| FileSystemEvent Watcher FileEvent
| SetupZigEnd

definition dispatch :: "ZigPathConfigOption \<Rightarrow> Event \<Rightarrow> Call list" where
  "dispatch resolved ev =
     (case ev of
        CommandInvoked c \<Rightarrow> if c = ''zig.install'' then [SelectVersionAndInstall] else []
      | DidChangeConfiguration affectsConfiguration \<Rightarrow>
          (if affectsConfiguration ''zig.version'' then [RefreshZigInstallation] else [])
          @ (if affectsConfiguration ''zig.path'' then
               (case resolved of
                  Undefined \<Rightarrow> []
                | Null \<Rightarrow> [RefreshZigInstallation]
                | ExeWithVersion exe v \<Rightarrow> [ProviderSet exe v, RefreshZigInstallation])
             else [])
      | DidChangeActiveTextEditor languageId \<Rightarrow>
          if languageId = Some ''zig'' then [StatusItemShow] else [StatusItemHide]
      | ProviderOnChange \<Rightarrow> [UpdateStatus]
      | FileSystemEvent watcher e \<Rightarrow> [RefreshZigInstallation]
      | SetupZigEnd \<Rightarrow> [RefreshZigInstallation])"

text \<open>
  The calls of an event with each call of \<^verbatim>\<open>refreshZigInstallation\<close> replaced by what
  the wrapped function does when it runs.
\<close>

definition calls_of :: "string option \<Rightarrow> ZigPathConfigOption \<Rightarrow> Event \<Rightarrow> Call list" where
  "calls_of zig_path resolved ev =
     concat (map (\<lambda>c. if c = RefreshZigInstallation then refreshZigInstallation zig_path
                       else [c])
               (dispatch resolved ev))"

section \<open>The configuration of the version manager\<close>

text \<open>
  \<^verbatim>\<open>versionManagerConfig\<close> as \<^verbatim>\<open>setupZig\<close> builds it. The extension context is left
  out; \<^verbatim>\<open>minisignKey\<close> is the text that \<^verbatim>\<open>minisign.parseKey\<close> is given.
\<close>

record CanonicalUrl =
  release :: uri
  nightly :: uri

record Config =
  config_title :: string
  exeName :: string
  extraTarArgs :: "string list"
  minisignKey :: string
  versionArg :: string
  mirrorUrls :: "uri list"
  canonicalUrl :: CanonicalUrl

definition versionManagerConfig :: Config where
  "versionManagerConfig =
     \<lparr>config_title = ''Zig'',
      exeName = ''zig'',
      extraTarArgs = [''--strip-components=1''],
      minisignKey = ''RWSGOq2NVecA2UPNdBUZykf1CCb147pkmdtYxgb3Ti+JO/wCYvhbAb/U'',
      versionArg = ''version'',
      mirrorUrls =
        [''https://pkg.machengine.org/zig'',
         ''https://zigmirror.hryx.net/zig'',
         ''https://zig.linus.dev/zig'',
         ''https://fs.liujiacai.net/zigbuilds'',
         ''https://zigmirror.nesovic.dev/zig''],
      canonicalUrl =
        \<lparr>release = ''https://ziglang.org/download'',
         nightly = ''https://ziglang.org/builds''\<rparr>\<rparr>"

section \<open>The engine of the specification\<close>

text \<open>
  The modules \<^verbatim>\<open>./versionManager\<close>, \<^verbatim>\<open>./zigProvider\<close> and \<^verbatim>\<open>./zigUtil\<close> and the
  functions \<^verbatim>\<open>installZig\<close> and \<^verbatim>\<open>getWantedZigVersion\<close> are not among the sources. What
  follows is written from the specification.
\<close>

datatype Failure =
  NoSatisfyingVersion
| IndexUnavailable
| DownloadFailed
| SignatureInvalid
| ExtractionFailed
| VersionMismatch
| PathInvalid

subsection \<open>Version Resolver\<close>

datatype VersionRequirement =
  ExactVersion jsstring
| MinimumVersion jsstring
| LatestStable
| LatestNightly

datatype Source = PinnedFile | ManifestMinimum | ConfigurationSetting | Fallback

text \<open>
  The project context: the version pinned in the per-project file and the minimum
  version of the manifest, each if present.
\<close>

record Project =
  pinnedVersion :: "jsstring option"
  manifestMinimumVersion :: "jsstring option"

text \<open>
  Modelled from the spec: \<^verbatim>\<open>resolve()\<close> of the Version Resolver (section 4.1), whose
  code (\<^verbatim>\<open>getWantedZigVersion\<close>) is not among the sources. The sources are consulted in
  the order pinned file, manifest minimum version, configuration setting, latest
  stable; the first that is present wins; without a project the first two are skipped.
\<close>

definition resolve :: "Project option \<Rightarrow> jsstring option \<Rightarrow> VersionRequirement \<times> Source" where
  "resolve project configured =
     (case (case project of None \<Rightarrow> None | Some p \<Rightarrow> pinnedVersion p) of
        Some v \<Rightarrow> (ExactVersion v, PinnedFile)
      | None \<Rightarrow>
          (case (case project of None \<Rightarrow> None | Some p \<Rightarrow> manifestMinimumVersion p) of
             Some m \<Rightarrow> (MinimumVersion m, ManifestMinimum)
           | None \<Rightarrow>
               (case configured of
                  Some c \<Rightarrow> (ExactVersion c, ConfigurationSetting)
                | None \<Rightarrow> (LatestStable, Fallback))))"

subsection \<open>Release Index Fetcher\<close>

datatype Channel = Stable | Nightly

datatype 'b Response = NetworkError | HttpResponse nat 'b

definition canonical_source :: "Config \<Rightarrow> Channel \<Rightarrow> uri" where
  "canonical_source cfg channel =
     (case channel of
        Stable \<Rightarrow> release (canonicalUrl cfg)
      | Nightly \<Rightarrow> nightly (canonicalUrl cfg))"

text \<open>
  Modelled from the spec: one attempt of the Release Index Fetcher (section 4.2) at one
  source. It fails on a network error, on a status outside 2xx and on a body that does
  not parse (the strict parser is the parameter \<open>parseIndex\<close>).
\<close>

definition attempt :: "(uri \<Rightarrow> 'b Response) \<Rightarrow> ('b \<Rightarrow> 'i option) \<Rightarrow> uri \<Rightarrow> 'i option" where
  "attempt http parseIndex u =
     (case http u of
        NetworkError \<Rightarrow> None
      | HttpResponse status body \<Rightarrow>
          if 200 \<le> status \<and> status < 300 then parseIndex body else None)"

text \<open>
  Modelled from the spec: the loop of \<^verbatim>\<open>fetchIndex\<close> over the sources in order. It
  returns the sources it has tried, in the order tried, and the first index that
  parsed, if any.
\<close>

fun try_sources :: "(uri \<Rightarrow> 'i option) \<Rightarrow> uri list \<Rightarrow> uri list \<times> 'i option" where
  "try_sources att [] = ([], None)"
| "try_sources att (u # us) =
     (case att u of
        Some i \<Rightarrow> ([u], Some i)
      | None \<Rightarrow> (case try_sources att us of (tried, r) \<Rightarrow> (u # tried, r)))"

text \<open>
  Modelled from the spec: \<^verbatim>\<open>fetchIndex(channel)\<close> of the Release Index Fetcher
  (section 4.2), whose code is not among the sources: the canonical URL of the channel,
  then each mirror in the listed order; \<^verbatim>\<open>IndexUnavailable\<close> when every source has
  failed. The URLs are those of \<^verbatim>\<open>versionManagerConfig\<close>.
\<close>

definition fetchIndex ::
  "Config \<Rightarrow> (uri \<Rightarrow> 'b Response) \<Rightarrow> ('b \<Rightarrow> 'i option) \<Rightarrow> Channel \<Rightarrow> uri list \<times> (Failure + 'i)" where
  "fetchIndex cfg http parseIndex channel =
     (case try_sources (attempt http parseIndex) (canonical_source cfg channel # mirrorUrls cfg) of
        (tried, Some i) \<Rightarrow> (tried, Inr i)
      | (tried, None) \<Rightarrow> (tried, Inl IndexUnavailable))"

subsection \<open>Installer\<close>

type_synonym bytes = "nat list"

text \<open>The artifact of a release for one host, and a release entry: an artifact per host.\<close>

record Artifact =
  tarball :: uri
  size :: "nat option"
  signature :: bytes

type_synonym ReleaseEntry = "string \<rightharpoonup> Artifact"

record ResolvedToolchain =
  resolvedVersion :: string
  executablePath :: string
  requirementSource :: Source

text \<open>
  The installed-versions directory: a subdirectory per installed version, named by the
  version, and the pointer to the current one. \<open>'t\<close> is an extracted tree.
\<close>

record 't InstalledVersionsDirectory =
  subdirectories :: "string \<rightharpoonup> 't"
  current :: "string option"

text \<open>
  What the Installer uses of its host: the platform identifier, the download of a URL,
  the Signature Verifier (public key, message, signature) and the trusted public key,
  the extraction of an archive, the version query on an extracted tree (the path of the
  executable inside the tree and the version it prints), the root of the installed
  versions, and whether removing a version's directory succeeds.
\<close>

record 't Host =
  hostName :: string
  download :: "uri \<Rightarrow> bytes option"
  verify :: "string \<Rightarrow> bytes \<Rightarrow> bytes \<Rightarrow> bool"
  trustedPublicKey :: string
  extractArchive :: "bytes \<Rightarrow> 't option"
  versionQuery :: "'t \<Rightarrow> (string \<times> string) option"
  installRoot :: string
  removeDirectory :: "string \<Rightarrow> bool"

datatype Step =
  Downloaded uri
| Verified bytes bytes
| Extracted bytes
| Queried
| Published string
| Removed string

text \<open>
  Modelled from the spec: step 6 of the Installer (section 4.4), the best-effort removal
  of the directory of the version that was current before, when it is no longer the
  current one.
\<close>

definition cleanup ::
  "'t Host \<Rightarrow> string option \<Rightarrow> 't InstalledVersionsDirectory \<Rightarrow>
     Step list \<times> 't InstalledVersionsDirectory" where
  "cleanup h previous dir =
     (case previous of
        None \<Rightarrow> ([], dir)
      | Some old \<Rightarrow>
          if Some old \<noteq> current dir \<and> removeDirectory h old
          then ([Removed old], dir\<lparr>subdirectories := (subdirectories dir)(old := None)\<rparr>)
          else ([], dir))"

text \<open>
  Modelled from the spec: \<^verbatim>\<open>install(entry, targetVersion)\<close> of the Installer (section
  4.4), whose code (\<^verbatim>\<open>versionManager.install\<close>) is not among the sources. The steps are
  those of the specification, in its order: download, verify, extract, version query,
  publish, cleanup; an entry with no artifact for the host counts as a failed download.
  It returns the steps taken, the installed-versions directory as the run leaves it,
  and the toolchain or the failure.
\<close>

definition install ::
  "'t Host \<Rightarrow> 't InstalledVersionsDirectory \<Rightarrow> ReleaseEntry \<Rightarrow> string \<Rightarrow> Source \<Rightarrow>
     Step list \<times> 't InstalledVersionsDirectory \<times> (Failure + ResolvedToolchain)" where
  "install h dir entry targetVersion src =
     (case entry (hostName h) of
        None \<Rightarrow> ([], dir, Inl DownloadFailed)
      | Some a \<Rightarrow>
          (case download h (tarball a) of
             None \<Rightarrow> ([Downloaded (tarball a)], dir, Inl DownloadFailed)
           | Some archive \<Rightarrow>
               if \<not> verify h (trustedPublicKey h) archive (signature a) then
                 ([Downloaded (tarball a), Verified archive (signature a)], dir,
                  Inl SignatureInvalid)
               else
                 (case extractArchive h archive of
                    None \<Rightarrow>
                      ([Downloaded (tarball a), Verified archive (signature a),
                        Extracted archive], dir, Inl ExtractionFailed)
                  | Some tree \<Rightarrow>
                      (case versionQuery h tree of
                         None \<Rightarrow>
                           ([Downloaded (tarball a), Verified archive (signature a),
                             Extracted archive, Queried], dir, Inl VersionMismatch)
                       | Some (exe, reported) \<Rightarrow>
                           if reported \<noteq> targetVersion then
                             ([Downloaded (tarball a), Verified archive (signature a),
                               Extracted archive, Queried], dir, Inl VersionMismatch)
                           else
                             (case cleanup h (current dir)
                                     (dir\<lparr>subdirectories :=
                                            (subdirectories dir)(targetVersion \<mapsto> tree),
                                          current := Some targetVersion\<rparr>) of
                                (removed, dir') \<Rightarrow>
                                  ([Downloaded (tarball a), Verified archive (signature a),
                                    Extracted archive, Queried, Published targetVersion]
                                   @ removed,
                                   dir',
                                   Inr \<lparr>resolvedVersion = targetVersion,
                                        executablePath =
                                          installRoot h @ ''/'' @ targetVersion @ ''/'' @ exe,
                                        requirementSource = src\<rparr>))))))"

subsection \<open>Toolchain Provider\<close>

datatype ToolchainProviderState =
  Uninitialized
| Installing VersionRequirement
| Ready ResolvedToolchain
| Failed Failure

text \<open>
  Modelled from the spec: the end of a pipeline run of the Toolchain Provider (section
  4.5 and section 7): a failure of the Installer becomes \<^verbatim>\<open>Failed(reason)\<close>, a toolchain
  becomes \<^verbatim>\<open>Ready\<close>.
\<close>

definition provider_state_after :: "Failure + ResolvedToolchain \<Rightarrow> ToolchainProviderState" where
  "provider_state_after r = (case r of Inl reason \<Rightarrow> Failed reason | Inr t \<Rightarrow> Ready t)"

section \<open>Concrete inputs\<close>

text \<open>
  Two versions, a stand-in for \<^verbatim>\<open>semver.parse\<close> that knows them, a manifest with a
  given minimum version and one that has the same version string in another field too,
  workspaces with no, one and two folders, and a host for the engine of the
  specification whose stand-in verifier accepts the reversed message as its signature.
\<close>

definition v0_12_0 :: SemVer where
  "v0_12_0 = \<lparr>raw = cu ''0.12.0'', version = cu ''0.12.0''\<rparr>"

definition v0_13_0 :: SemVer where
  "v0_13_0 = \<lparr>raw = cu ''0.13.0'', version = cu ''0.13.0''\<rparr>"

definition example_parse :: "jsstring \<Rightarrow> SemVer option" where
  "example_parse s =
     (if s = cu ''0.12.0'' then Some v0_12_0
      else if s = cu ''0.13.0'' then Some v0_13_0
      else None)"

definition example_manifest :: "jsstring \<Rightarrow> jsstring list" where
  "example_manifest versionString =
     [cu ''.{'',
      cu ''    .name = .demo,'',
      cu ''    .minimum_zig_version = '' @ [34] @ versionString @ [34] @ cu '','',
      cu ''}'']"

definition manifest_with_version :: "jsstring list" where
  "manifest_with_version =
     [cu ''.{'',
      cu ''    .version = '' @ [34] @ cu ''0.13.0'' @ [34] @ cu '','',
      cu ''    .minimum_zig_version = '' @ [34] @ cu ''0.13.0'' @ [34] @ cu '','',
      cu ''}'']"

definition no_workspace :: Workspace where
  "no_workspace = \<lparr>workspaceFolders = None, files = Map.empty\<rparr>"

definition single_root :: "jsstring list \<Rightarrow> Workspace" where
  "single_root ls =
     \<lparr>workspaceFolders = Some [\<lparr>uri = ''/proj''\<rparr>],
      files = [''/proj/build.zig.zon'' \<mapsto> (ls, CRLF)]\<rparr>"

definition multi_root :: "jsstring list \<Rightarrow> Workspace" where
  "multi_root ls =
     \<lparr>workspaceFolders = Some [\<lparr>uri = ''/proj''\<rparr>, \<lparr>uri = ''/other''\<rparr>],
      files = [''/proj/build.zig.zon'' \<mapsto> (ls, CRLF),
               ''/other/build.zig.zon'' \<mapsto> (example_manifest (cu ''0.12.0''), LF),
               ''/other/.zigversion'' \<mapsto> ([cu ''0.12.0''], LF)]\<rparr>"

definition example_http :: "uri \<Rightarrow> string Response" where
  "example_http u =
     (if u = ''https://ziglang.org/download'' then NetworkError
      else if u = ''https://pkg.machengine.org/zig'' then HttpResponse 200 ''{0.13.0}''
      else HttpResponse 404 [])"

definition example_parseIndex :: "string \<Rightarrow> string list option" where
  "example_parseIndex body = (if body = ''{0.13.0}'' then Some [''0.13.0''] else None)"

definition example_host :: "bytes Host" where
  "example_host =
     \<lparr>hostName = ''x86_64-linux'',
      download = (\<lambda>u. if u = ''https://ziglang.org/download/0.13.0/zig.tar.xz''
                      then Some [122, 105, 103] else None),
      verify = (\<lambda>key msg sg. sg = rev msg),
      trustedPublicKey = minisignKey versionManagerConfig,
      extractArchive = Some,
      versionQuery = (\<lambda>t. Some (''zig'', ''0.13.0'')),
      installRoot = ''/zig'',
      removeDirectory = (\<lambda>v. True)\<rparr>"

definition example_entry :: "bytes \<Rightarrow> ReleaseEntry" where
  "example_entry sg =
     [''x86_64-linux'' \<mapsto>
        \<lparr>tarball = ''https://ziglang.org/download/0.13.0/zig.tar.xz'', size = None,
         signature = sg\<rparr>]"

definition empty_directory :: "bytes InstalledVersionsDirectory" where
  "empty_directory = \<lparr>subdirectories = Map.empty, current = None\<rparr>"

section \<open>Properties of the regular expression\<close>

lemma stripPrefix_Some: "stripPrefix p s = Some r \<Longrightarrow> s = p @ r"
  by (induction p s rule: stripPrefix.induct) (auto split: if_splits)

lemma lastIndexOf_Some: "lastIndexOf q xs = Some j \<Longrightarrow> j < length xs \<and> xs ! j = q"
  by (induction xs arbitrary: j) (auto split: option.splits if_splits)

lemma match_at_Some:
  assumes "match_at s = Some (m0, g)"
  shows "\<exists>pre rest. m0 = pre @ 34 # g @ [34] \<and> s = m0 @ rest \<and> (\<forall>c\<in>set g. \<not> isLineTerminator c)"
proof -
  from assms obtain c s1 where s: "s = c # s1" and c: "c = 10"
    by (cases s) (auto simp: match_at_def split: if_splits)
  define ws where "ws = takeWhile isWhiteSpace s1"
  define s2 where "s2 = dropWhile isWhiteSpace s1"
  define lit where "lit = cu ''.minimum_zig_version''"
  have s1: "s1 = ws @ s2" by (simp add: ws_def s2_def)
  from assms obtain s3 where s3: "stripPrefix lit s2 = Some s3"
    by (auto simp: match_at_def s c s2_def lit_def Let_def split: option.splits)
  then have s2: "s2 = lit @ s3" by (rule stripPrefix_Some)
  from assms s3 obtain w1 e w2 q s4 j where
    s3': "s3 = w1 # e # w2 # q # s4" and q: "q = 34"
    and j: "lastIndexOf 34 (takeWhile (\<lambda>x. \<not> isLineTerminator x) s4) = Some j"
    and m0: "m0 = c # ws @ lit @ [w1, e, w2, q] @ take j s4 @ [34]"
    and g: "g = take j s4"
    by (auto simp: match_at_def s c s2_def[symmetric] ws_def[symmetric] lit_def[symmetric] Let_def
        split: option.splits list.splits if_splits)
  let ?tw = "takeWhile (\<lambda>x. \<not> isLineTerminator x) s4"
  from lastIndexOf_Some[OF j] have jl: "j < length ?tw" and jq: "?tw ! j = 34" by auto
  have jl4: "j < length s4" using jl length_takeWhile_le[of "\<lambda>x. \<not> isLineTerminator x" s4] by simp
  have s4j: "s4 ! j = 34" using jq takeWhile_nth[OF jl] by simp
  have s4: "s4 = take j s4 @ 34 # drop (Suc j) s4"
    using id_take_nth_drop[OF jl4] s4j by simp
  have gtw: "g = take j ?tw"
  proof -
    have "take j s4 = take j (?tw @ dropWhile (\<lambda>x. \<not> isLineTerminator x) s4)" by simp
    also have "\<dots> = take j ?tw" using jl by (simp only: take_append) simp
    finally show ?thesis using g by simp
  qed
  have noterm: "\<forall>c\<in>set g. \<not> isLineTerminator c"
  proof
    fix x assume "x \<in> set g"
    then have "x \<in> set ?tw" using gtw by (metis in_set_takeD)
    then show "\<not> isLineTerminator x" by (rule set_takeWhileD[THEN conjunct2])
  qed
  have "m0 = (c # ws @ lit @ [w1, e, w2]) @ 34 # g @ [34]" using m0 g q by simp
  moreover have "s = m0 @ drop (Suc j) s4"
    using s s1 s2 s3' m0 q s4 by simp
  ultimately show ?thesis using noterm by blast
qed

lemma exec_from_Some:
  "exec_from i t = Some (idx, m0, g) \<Longrightarrow> \<exists>k. idx = i + k \<and> k \<le> length t \<and> match_at (drop k t) = Some (m0, g)"
proof (induction t arbitrary: i)
  case Nil
  then show ?case by simp
next
  case (Cons c cs)
  show ?case
  proof (cases "match_at (c # cs)")
    case None
    with Cons.prems have "exec_from (Suc i) cs = Some (idx, m0, g)" by simp
    from Cons.IH[OF this] obtain k where "idx = Suc i + k" "k \<le> length cs" "match_at (drop k cs) = Some (m0, g)"
      by blast
    then show ?thesis by (intro exI[of _ "Suc k"]) simp
  next
    case (Some a)
    with Cons.prems have "idx = i" "a = (m0, g)" by (auto split: prod.splits)
    with Some show ?thesis by (intro exI[of _ 0]) simp
  qed
qed

lemma regex_exec_match:
  assumes "regex_exec t = Some (idx, m0, g)"
  shows "\<exists>pre rest. m0 = pre @ 34 # g @ [34] \<and> drop idx t = m0 @ rest
           \<and> (\<forall>c\<in>set g. \<not> isLineTerminator c)"
proof -
  from assms exec_from_Some[of 0 t idx m0 g] have "match_at (drop idx t) = Some (m0, g)"
    by (auto simp: regex_exec_def)
  from match_at_Some[OF this] show ?thesis by blast
qed

lemma prefix_before_break:
  assumes "d @ x # ys = g @ q # rest" and "x \<in> B" and "\<forall>c\<in>set (g @ [q]). c \<notin> B"
  shows "\<exists>rest'. d = g @ q # rest'"
proof -
  from assms(1) obtain us where
    "(d = g @ us \<and> us @ x # ys = q # rest) \<or> (d @ us = g \<and> x # ys = us @ q # rest)"
    by (auto simp: append_eq_append_conv2)
  then show ?thesis
  proof
    assume h: "d = g @ us \<and> us @ x # ys = q # rest"
    show ?thesis
    proof (cases us)
      case Nil
      with h assms(2,3) show ?thesis by auto
    next
      case (Cons u us')
      with h show ?thesis by auto
    qed
  next
    assume h: "d @ us = g \<and> x # ys = us @ q # rest"
    show ?thesis
    proof (cases us)
      case Nil
      with h assms(2,3) show ?thesis by auto
    next
      case (Cons u us')
      with h have "x = u" "u \<in> set g" by auto
      with assms(2,3) show ?thesis by auto
    qed
  qed
qed

lemma position_offset_in_segment:
  assumes "e \<noteq> []" and "set e \<subseteq> B" and "\<forall>c\<in>set (g @ [q]). c \<notin> B"
  shows "length e = n \<Longrightarrow> drop off (join_lines e ls) = g @ q # rest \<Longrightarrow>
         \<exists>a c rest'. position_in ls n off i = Position (i + a) c
           \<and> a < length ls \<and> drop c (ls ! a) = g @ q # rest'
           \<and> offset_in ls n a c = off"
proof (induction ls n off i arbitrary: rest rule: position_in.induct)
  case (1 n off i)
  then show ?case by simp
next
  case (2 l n off i)
  then have "off < length l" by (cases "off < length l") auto
  with 2 show ?case by (intro exI[of _ 0] exI[of _ off]) (auto simp: min_def)
next
  case (3 l l' ls n off i)
  note IH = "3.IH" and prem = "3.prems"(2) and n = "3.prems"(1)
  let ?J = "join_lines e (l' # ls)"
  from assms(1) obtain x xs where e: "e = x # xs" by (cases e) auto
  with assms(2) have xB: "x \<in> B" by simp
  consider (a) "off < length l" | (b) "length l \<le> off" "off < length l + length e"
    | (c) "length l + length e \<le> off"
    by linarith
  then show ?case
  proof cases
    case a
    from prem a have "drop off l @ x # (xs @ ?J) = g @ q # rest" by (simp add: e)
    from prefix_before_break[OF this xB assms(3)] obtain rest' where "drop off l = g @ q # rest'" ..
    with a n show ?thesis by (intro exI[of _ 0] exI[of _ off]) (auto simp: min_def)
  next
    case b
    then have lt: "off - length l < length e" by simp
    from prem b have "drop (off - length l) e @ ?J = g @ q # rest" by simp
    moreover from lt obtain y ys where dy: "drop (off - length l) e = y # ys"
      by (cases "drop (off - length l) e") auto
    moreover have yB: "y \<in> B" using dy assms(2) by (metis in_set_dropD list.set_intros(1) subsetD)
    ultimately have "[] @ y # (ys @ ?J) = g @ q # rest" by simp
    from prefix_before_break[OF this yB assms(3)] show ?thesis by simp
  next
    case c
    then have nlt: "\<not> off < length l + n" using n by simp
    from prem c n
    have "drop (off - (length l + n)) ?J = g @ q # rest" by simp
    from IH[OF nlt n this] obtain a c rest' where
      "position_in (l' # ls) n (off - (length l + n)) (Suc i) = Position (Suc i + a) c"
      "a < length (l' # ls)" "drop c ((l' # ls) ! a) = g @ q # rest'"
      "offset_in (l' # ls) n a c = off - (length l + n)" by blast
    with nlt show ?thesis by (intro exI[of _ "Suc a"] exI[of _ c]) auto
  qed
qed

lemma offset_in_add:
  "a < length ls \<Longrightarrow> c + k \<le> length (ls ! a) \<Longrightarrow>
     offset_in ls n a (c + k) = offset_in ls n a c + k"
proof (induction ls n a c rule: offset_in.induct)
  case (1 n l c)
  then show ?case by simp
next
  case (2 x n l c)
  then show ?case by simp
next
  case (3 x y ys n c)
  then show ?case by simp
next
  case (4 x y ys n l c)
  then show ?case by simp
qed

text \<open>
  The matcher against the meaning of the regular expression: \<open>match_at\<close> returns a match
  of the expression, it returns one whenever there is one, and none is longer;
  \<open>regex_exec\<close> returns the match at the leftmost offset that has one.
\<close>

lemma stripPrefix_append: "stripPrefix p (p @ r) = Some r"
  by (induction p) auto

lemma lastIndexOf_None: "lastIndexOf q xs = None \<longleftrightarrow> q \<notin> set xs"
  by (induction xs) (auto split: option.splits)

lemma lastIndexOf_greatest:
  "lastIndexOf q xs = Some j \<Longrightarrow> k < length xs \<Longrightarrow> xs ! k = q \<Longrightarrow> k \<le> j"
proof (induction xs arbitrary: j k)
  case Nil
  then show ?case by simp
next
  case (Cons x xs)
  show ?case
  proof (cases k)
    case 0
    then show ?thesis by simp
  next
    case (Suc k')
    with Cons.prems have k': "k' < length xs" "xs ! k' = q" by auto
    then have "q \<in> set xs" by (metis nth_mem)
    then obtain j' where j': "lastIndexOf q xs = Some j'"
      using lastIndexOf_None[of q xs] by (cases "lastIndexOf q xs") auto
    with Cons.prems have "j = Suc j'" by simp
    with Cons.IH[OF j' k'] Suc show ?thesis by simp
  qed
qed

lemma not_white_dot: "\<not> isWhiteSpace 46"
  by (simp add: isWhiteSpace_def)

lemma lit_head: "cu ''.minimum_zig_version'' = 46 # cu ''minimum_zig_version''"
  by (simp add: cu_def)

lemma match_at_sound:
  assumes "match_at s = Some (m0, g)"
  shows "regex_matches s m0 g"
proof -
  from assms obtain c s1 where s: "s = c # s1" and c: "c = 10"
    by (cases s) (auto simp: match_at_def split: if_splits)
  define ws where "ws = takeWhile isWhiteSpace s1"
  define s2 where "s2 = dropWhile isWhiteSpace s1"
  define lit where "lit = cu ''.minimum_zig_version''"
  have s1: "s1 = ws @ s2" by (simp add: ws_def s2_def)
  from assms obtain s3 where s3: "stripPrefix lit s2 = Some s3"
    by (auto simp: match_at_def s c s2_def lit_def Let_def split: option.splits)
  then have s2: "s2 = lit @ s3" by (rule stripPrefix_Some)
  from assms s3 obtain w1 e w2 q s4 j where
    s3': "s3 = w1 # e # w2 # q # s4" and q: "q = 34" and e: "e = 61"
    and w: "isWhiteSpace w1" "isWhiteSpace w2"
    and j: "lastIndexOf 34 (takeWhile (\<lambda>x. \<not> isLineTerminator x) s4) = Some j"
    and m0: "m0 = c # ws @ lit @ [w1, e, w2, q] @ take j s4 @ [34]"
    and g: "g = take j s4"
    by (auto simp: match_at_def s c s2_def[symmetric] ws_def[symmetric] lit_def[symmetric] Let_def
        split: option.splits list.splits if_splits)
  from match_at_Some[OF assms] obtain rest where
    "s = m0 @ rest" and nt: "\<forall>c\<in>set g. \<not> isLineTerminator c" by blast
  moreover have "\<forall>c\<in>set ws. isWhiteSpace c"
    unfolding ws_def by (auto dest: set_takeWhileD)
  ultimately show ?thesis
    unfolding regex_matches_def using m0 g q e c w lit_def by blast
qed

lemma match_at_complete:
  assumes "regex_matches s m0 g"
  shows "\<exists>m0' g'. match_at s = Some (m0', g') \<and> length m0 \<le> length m0'"
proof -
  let ?lit = "cu ''.minimum_zig_version''"
  from assms obtain ws w1 w2 rest where
    m0: "m0 = 10 # ws @ ?lit @ [w1, 61, w2, 34] @ g @ [34]" and s: "s = m0 @ rest"
    and ws: "\<forall>c\<in>set ws. isWhiteSpace c" and w: "isWhiteSpace w1" "isWhiteSpace w2"
    and nt: "\<forall>c\<in>set g. \<not> isLineTerminator c"
    unfolding regex_matches_def by blast
  let ?s4 = "g @ 34 # rest"
  let ?s1 = "ws @ ?lit @ [w1, 61, w2, 34] @ ?s4"
  have s': "s = 10 # ?s1" using s m0 by simp
  have tw: "takeWhile isWhiteSpace ?s1 = ws"
    using ws not_white_dot by (simp add: lit_head)
  have dw: "dropWhile isWhiteSpace ?s1 = ?lit @ [w1, 61, w2, 34] @ ?s4"
    using ws not_white_dot by (simp add: lit_head)
  let ?line = "takeWhile (\<lambda>x. \<not> isLineTerminator x) ?s4"
  have q: "\<not> isLineTerminator 34" by (simp add: isLineTerminator_def)
  have line: "?line = g @ 34 # takeWhile (\<lambda>x. \<not> isLineTerminator x) rest"
    using nt q by simp
  then have "34 \<in> set ?line" by simp
  then obtain j where j: "lastIndexOf 34 ?line = Some j"
    using lastIndexOf_None[of 34 ?line] by (cases "lastIndexOf 34 ?line") auto
  have "length g < length ?line" "?line ! length g = 34" using line by (simp_all add: nth_append)
  from lastIndexOf_greatest[OF j this] have gj: "length g \<le> j" .
  have "match_at s = Some (10 # ws @ ?lit @ [w1, 61, w2, 34] @ take j ?s4 @ [34], take j ?s4)"
    unfolding match_at_def s' using tw dw w j
    by (simp add: Let_def stripPrefix_append del: takeWhile.simps dropWhile.simps takeWhile_append2 dropWhile_append2)
  moreover have "j < length ?s4"
    using lastIndexOf_Some[OF j] length_takeWhile_le[of "\<lambda>x. \<not> isLineTerminator x" ?s4] by linarith
  ultimately show ?thesis using gj m0 by (intro exI conjI) (assumption, simp)
qed

lemma exec_from_None:
  "exec_from i t = None \<longleftrightarrow> (\<forall>k\<le>length t. match_at (drop k t) = None)"
proof (induction t arbitrary: i)
  case Nil
  show ?case by (simp add: match_at_def)
next
  case (Cons c cs)
  show ?case
  proof (cases "match_at (c # cs)")
    case None
    have "(\<forall>k\<le>length (c # cs). match_at (drop k (c # cs)) = None)
        \<longleftrightarrow> (\<forall>k\<le>length cs. match_at (drop k cs) = None)"
    proof
      assume a: "\<forall>k\<le>length (c # cs). match_at (drop k (c # cs)) = None"
      show "\<forall>k\<le>length cs. match_at (drop k cs) = None"
      proof (intro allI impI)
        fix k assume "k \<le> length cs"
        with a[rule_format, of "Suc k"] show "match_at (drop k cs) = None" by simp
      qed
    next
      assume a: "\<forall>k\<le>length cs. match_at (drop k cs) = None"
      show "\<forall>k\<le>length (c # cs). match_at (drop k (c # cs)) = None"
      proof (intro allI impI)
        fix k assume k: "k \<le> length (c # cs)"
        show "match_at (drop k (c # cs)) = None"
        proof (cases k)
          case 0 with None show ?thesis by simp
        next
          case (Suc k') with k a show ?thesis by simp
        qed
      qed
    qed
    with None Cons.IH[of "Suc i"] show ?thesis by simp
  next
    case (Some a)
    then have "exec_from i (c # cs) \<noteq> None" by (auto split: prod.splits)
    moreover have "\<not> (\<forall>k\<le>length (c # cs). match_at (drop k (c # cs)) = None)"
      using Some by (auto intro: exI[of _ 0])
    ultimately show ?thesis by blast
  qed
qed

lemma exec_from_leftmost:
  "exec_from i t = Some (idx, m0, g) \<Longrightarrow>
     i \<le> idx \<and> match_at (drop (idx - i) t) = Some (m0, g)
     \<and> (\<forall>k < idx - i. match_at (drop k t) = None)"
proof (induction t arbitrary: i)
  case Nil
  then show ?case by simp
next
  case (Cons c cs)
  show ?case
  proof (cases "match_at (c # cs)")
    case None
    with Cons.prems have "exec_from (Suc i) cs = Some (idx, m0, g)" by simp
    from Cons.IH[OF this] have ih: "Suc i \<le> idx" "match_at (drop (idx - Suc i) cs) = Some (m0, g)"
      "\<forall>k < idx - Suc i. match_at (drop k cs) = None" by auto
    have d: "idx - i = Suc (idx - Suc i)" using ih(1) by simp
    have "\<forall>k < idx - i. match_at (drop k (c # cs)) = None"
    proof (intro allI impI)
      fix k assume k: "k < idx - i"
      show "match_at (drop k (c # cs)) = None"
      proof (cases k)
        case 0 with None show ?thesis by simp
      next
        case (Suc k') with k ih(3) d show ?thesis by simp
      qed
    qed
    with ih d show ?thesis by simp
  next
    case (Some a)
    with Cons.prems have "idx = i" "a = (m0, g)" by (auto split: prod.splits)
    with Some show ?thesis by simp
  qed
qed

lemma regex_exec_None_iff:
  "regex_exec t = None \<longleftrightarrow> \<not> (\<exists>k m0 g. k \<le> length t \<and> regex_matches (drop k t) m0 g)"
proof
  assume n: "regex_exec t = None"
  show "\<not> (\<exists>k m0 g. k \<le> length t \<and> regex_matches (drop k t) m0 g)"
  proof
    assume "\<exists>k m0 g. k \<le> length t \<and> regex_matches (drop k t) m0 g"
    then obtain k m0 g where k: "k \<le> length t" and "regex_matches (drop k t) m0 g" by blast
    from match_at_complete[OF this(2)] have "match_at (drop k t) \<noteq> None" by auto
    with n k show False by (simp add: regex_exec_def exec_from_None)
  qed
next
  assume a: "\<not> (\<exists>k m0 g. k \<le> length t \<and> regex_matches (drop k t) m0 g)"
  have "\<forall>k\<le>length t. match_at (drop k t) = None"
  proof (intro allI impI)
    fix k assume k: "k \<le> length t"
    show "match_at (drop k t) = None"
    proof (cases "match_at (drop k t)")
      case None then show ?thesis .
    next
      case (Some a')
      obtain m0 g where "a' = (m0, g)" by (cases a')
      with Some match_at_sound[of "drop k t" m0 g] a k show ?thesis by blast
    qed
  qed
  then show "regex_exec t = None" by (simp add: regex_exec_def exec_from_None)
qed

lemma regex_exec_leftmost_longest:
  assumes "regex_exec t = Some (idx, m0, g)"
  shows "regex_matches (drop idx t) m0 g"
    and "\<forall>k<idx. \<forall>m0' g'. \<not> regex_matches (drop k t) m0' g'"
    and "\<forall>m0' g'. regex_matches (drop idx t) m0' g' \<longrightarrow> length m0' \<le> length m0"
proof -
  from exec_from_leftmost[of 0 t idx m0 g] assms have
    m: "match_at (drop idx t) = Some (m0, g)" and l: "\<forall>k<idx. match_at (drop k t) = None"
    by (auto simp: regex_exec_def)
  show "regex_matches (drop idx t) m0 g" using m by (rule match_at_sound)
  show "\<forall>k<idx. \<forall>m0' g'. \<not> regex_matches (drop k t) m0' g'"
    using l match_at_complete by fastforce
  show "\<forall>m0' g'. regex_matches (drop idx t) m0' g' \<longrightarrow> length m0' \<le> length m0"
    using m match_at_complete by fastforce
qed

section \<open>Properties of \<^verbatim>\<open>parseBuildZigZon\<close>\<close>

lemma eol_text_props: "eol_text e \<noteq> []" "set (eol_text e) \<subseteq> {10, 13}"
  by (cases e; simp)+

lemma parse_range_exact:
  assumes "regex_exec (getText d) = Some (idx, pre @ 34 # vs @ [34], vs)"
  defines "off \<equiv> idx + length pre + 1"
  shows "idx + length (pre @ 34 # vs @ [34]) - length vs - 1 = off"
    and "offsetAt d (positionAt d off) = off"
    and "offsetAt d (translate (positionAt d off) 0 (length vs)) = off + length vs"
    and "getText_range d (Range (positionAt d off) (translate (positionAt d off) 0 (length vs)))
           = Some vs"
    and "line (translate (positionAt d off) 0 (length vs)) = line (positionAt d off)"
proof -
  show o: "idx + length (pre @ 34 # vs @ [34]) - length vs - 1 = off" by (simp add: off_def)
  from regex_exec_match[OF assms(1)] obtain pre' rest where
    m: "pre @ 34 # vs @ [34] = pre' @ 34 # vs @ [34]"
    and dr: "drop idx (getText d) = (pre @ 34 # vs @ [34]) @ rest"
    and nt0: "\<forall>c\<in>set vs. \<not> isLineTerminator c" by blast
  have "drop off (getText d) = drop (length pre + 1) (drop idx (getText d))"
    by (simp add: off_def add.commute add.left_commute)
  also have "\<dots> = vs @ 34 # rest" using dr by simp
  finally have d: "drop off (join_lines (eol_text (eol d)) (doc_lines d)) = vs @ 34 # rest"
    by (simp add: getText_def)
  have nt: "\<forall>c\<in>set (vs @ [34]). c \<notin> {10, 13::nat}"
    using nt0 by (auto simp: isLineTerminator_def)
  from position_offset_in_segment[OF eol_text_props(1) eol_text_props(2) nt refl d, of 0]
  obtain a c rest' where p: "positionAt d off = Position a c" and a: "a < length (doc_lines d)"
    and dc: "drop c (doc_lines d ! a) = vs @ 34 # rest'"
    and oc: "offset_in (doc_lines d) (length (eol_text (eol d))) a c = off"
    by (auto simp: positionAt_def)
  have len: "c + length vs \<le> length (doc_lines d ! a)"
  proof -
    have "length (drop c (doc_lines d ! a)) = length (vs @ 34 # rest')" using dc by simp
    then show ?thesis by simp
  qed
  show "offsetAt d (positionAt d off) = off" using p oc by (simp add: offsetAt_def)
  show "offsetAt d (translate (positionAt d off) 0 (length vs)) = off + length vs"
    using p oc offset_in_add[OF a len] by (simp add: offsetAt_def translate_def)
  have "take (length vs) (drop c (doc_lines d ! a)) = vs" using dc by simp
  with p a len show "getText_range d (Range (positionAt d off)
      (translate (positionAt d off) 0 (length vs))) = Some vs"
    by (simp add: getText_range_def translate_def)
  show "line (translate (positionAt d off) 0 (length vs)) = line (positionAt d off)"
    by (simp add: translate_def)
qed

text \<open>
  Claim C9. \<^verbatim>\<open>parseBuildZigZon\<close> returns \<^verbatim>\<open>null\<close> when there is no workspace folder,
  when the manifest of the first workspace folder has no match of the regular
  expression, and when \<^verbatim>\<open>semver.parse\<close> does not parse the matched version string. A
  result that is not \<^verbatim>\<open>null\<close> carries the manifest of the first workspace folder, the
  version that \<^verbatim>\<open>semver.parse\<close> gave for the group of the leftmost match, and the range
  of that group in the document: with the match at offset \<open>idx\<close> and the group after the
  \<open>length pre + 1\<close> code units of the match that come before it, the range starts at the
  position of the offset \<open>idx + length pre + 1\<close> and ends in the same line, its ends are
  the offsets where the group starts and ends, and its text is the group. (The promise
  rejects only when the manifest cannot be opened.)
\<close>

theorem parseBuildZigZon_null_or_exact:
  "(getWorkspaceFolder w = None \<longrightarrow> parseBuildZigZon semver_parse w = Inr None)
   \<and> (\<forall>f d. getWorkspaceFolder w = Some f
        \<and> openTextDocument w (joinPath (uri f) ''build.zig.zon'') = Some d
        \<and> regex_exec (getText d) = None
        \<longrightarrow> parseBuildZigZon semver_parse w = Inr None)
   \<and> (\<forall>f d idx m0 vs. getWorkspaceFolder w = Some f
        \<and> openTextDocument w (joinPath (uri f) ''build.zig.zon'') = Some d
        \<and> regex_exec (getText d) = Some (idx, m0, vs) \<and> semver_parse vs = None
        \<longrightarrow> parseBuildZigZon semver_parse w = Inr None)
   \<and> (\<forall>m. parseBuildZigZon semver_parse w = Inr (Some m)
        \<longrightarrow> (\<exists>f idx pre vs rest.
              getWorkspaceFolder w = Some f
              \<and> openTextDocument w (joinPath (uri f) ''build.zig.zon'') = Some (document m)
              \<and> regex_exec (getText (document m)) = Some (idx, pre @ 34 # vs @ [34], vs)
              \<and> drop idx (getText (document m)) = pre @ 34 # vs @ 34 # rest
              \<and> semver_parse vs = Some (minimumZigVersion m)
              \<and> minimumZigVersionSourceRange m
                  = Range (positionAt (document m) (idx + length pre + 1))
                      (translate (positionAt (document m) (idx + length pre + 1)) 0 (length vs))
              \<and> offsetAt (document m) (start (minimumZigVersionSourceRange m))
                  = idx + length pre + 1
              \<and> offsetAt (document m) (stop (minimumZigVersionSourceRange m))
                  = idx + length pre + 1 + length vs
              \<and> line (stop (minimumZigVersionSourceRange m))
                  = line (start (minimumZigVersionSourceRange m))
              \<and> getText_range (document m) (minimumZigVersionSourceRange m) = Some vs))"
proof (intro conjI allI impI)
  assume "getWorkspaceFolder w = None"
  then show "parseBuildZigZon semver_parse w = Inr None" by (simp add: parseBuildZigZon_def)
next
  fix f d
  assume "getWorkspaceFolder w = Some f
        \<and> openTextDocument w (joinPath (uri f) ''build.zig.zon'') = Some d
        \<and> regex_exec (getText d) = None"
  then show "parseBuildZigZon semver_parse w = Inr None" by (simp add: parseBuildZigZon_def)
next
  fix f d idx m0 vs
  assume "getWorkspaceFolder w = Some f
        \<and> openTextDocument w (joinPath (uri f) ''build.zig.zon'') = Some d
        \<and> regex_exec (getText d) = Some (idx, m0, vs) \<and> semver_parse vs = None"
  then show "parseBuildZigZon semver_parse w = Inr None" by (simp add: parseBuildZigZon_def)
next
  fix m
  assume r: "parseBuildZigZon semver_parse w = Inr (Some m)"
  then obtain f d idx m0 vs v where
    f: "getWorkspaceFolder w = Some f"
    and d: "openTextDocument w (joinPath (uri f) ''build.zig.zon'') = Some d"
    and x: "regex_exec (getText d) = Some (idx, m0, vs)" and v: "semver_parse vs = Some v"
    and m: "m = \<lparr>document = d, minimumZigVersion = v,
             minimumZigVersionSourceRange =
               Range (positionAt d (idx + length m0 - length vs - 1))
                 (translate (positionAt d (idx + length m0 - length vs - 1)) 0 (length vs))\<rparr>"
    by (auto simp: parseBuildZigZon_def Let_def split: option.splits)
  from regex_exec_match[OF x] obtain pre rest where
    m0: "m0 = pre @ 34 # vs @ [34]" and dr: "drop idx (getText d) = m0 @ rest" by blast
  note x' = x[unfolded m0]
  note e = parse_range_exact[OF x']
  have rng: "minimumZigVersionSourceRange m
      = Range (positionAt d (idx + length pre + 1))
          (translate (positionAt d (idx + length pre + 1)) 0 (length vs))"
    using m m0 e(1) by simp
  have "getWorkspaceFolder w = Some f
      \<and> openTextDocument w (joinPath (uri f) ''build.zig.zon'') = Some (document m)
      \<and> regex_exec (getText (document m)) = Some (idx, pre @ 34 # vs @ [34], vs)
      \<and> drop idx (getText (document m)) = pre @ 34 # vs @ 34 # rest
      \<and> semver_parse vs = Some (minimumZigVersion m)
      \<and> minimumZigVersionSourceRange m
          = Range (positionAt (document m) (idx + length pre + 1))
              (translate (positionAt (document m) (idx + length pre + 1)) 0 (length vs))
      \<and> offsetAt (document m) (start (minimumZigVersionSourceRange m)) = idx + length pre + 1
      \<and> offsetAt (document m) (stop (minimumZigVersionSourceRange m))
          = idx + length pre + 1 + length vs
      \<and> line (stop (minimumZigVersionSourceRange m))
          = line (start (minimumZigVersionSourceRange m))
      \<and> getText_range (document m) (minimumZigVersionSourceRange m) = Some vs"
    using f d x' dr v e(2-5) rng m0 m by simp
  then show "\<exists>f idx pre vs rest.
              getWorkspaceFolder w = Some f
              \<and> openTextDocument w (joinPath (uri f) ''build.zig.zon'') = Some (document m)
              \<and> regex_exec (getText (document m)) = Some (idx, pre @ 34 # vs @ [34], vs)
              \<and> drop idx (getText (document m)) = pre @ 34 # vs @ 34 # rest
              \<and> semver_parse vs = Some (minimumZigVersion m)
              \<and> minimumZigVersionSourceRange m
                  = Range (positionAt (document m) (idx + length pre + 1))
                      (translate (positionAt (document m) (idx + length pre + 1)) 0 (length vs))
              \<and> offsetAt (document m) (start (minimumZigVersionSourceRange m))
                  = idx + length pre + 1
              \<and> offsetAt (document m) (stop (minimumZigVersionSourceRange m))
                  = idx + length pre + 1 + length vs
              \<and> line (stop (minimumZigVersionSourceRange m))
                  = line (start (minimumZigVersionSourceRange m))
              \<and> getText_range (document m) (minimumZigVersionSourceRange m) = Some vs"
    by blast
qed

lemmas fixture_defs =
  v0_12_0_def v0_13_0_def example_parse_def example_manifest_def no_workspace_def
  single_root_def multi_root_def manifest_with_version_def

lemmas parse_eval =
  parseBuildZigZon_def getWorkspaceFolder_def joinPath_def openTextDocument_def regex_exec_def
  match_at_def getText_def cu_def isWhiteSpace_def isLineTerminator_def positionAt_def
  translate_def

lemma example_parse_result2:
  "parseBuildZigZon example_parse (single_root manifest_with_version) =
     Inr (Some \<lparr>document = \<lparr>doc_uri = ''/proj/build.zig.zon'',
                              doc_lines = manifest_with_version, eol = CRLF\<rparr>,
                 minimumZigVersion = v0_13_0,
                 minimumZigVersionSourceRange = Range (Position 2 28) (Position 2 34)\<rparr>)"
  by (simp add: parse_eval fixture_defs)

text \<open>
  The four cases at concrete workspaces: no folder, a manifest without the field, a
  manifest whose version is \<^verbatim>\<open>latest\<close>, and a manifest that has \<^verbatim>\<open>0.13.0\<close> both in its
  \<^verbatim>\<open>.version\<close> and, a line below, in its \<^verbatim>\<open>.minimum_zig_version\<close>: the range is the one
  in the line of \<^verbatim>\<open>.minimum_zig_version\<close>.
\<close>

theorem parseBuildZigZon_null_or_exact_witness:
  "parseBuildZigZon example_parse no_workspace = Inr None
   \<and> parseBuildZigZon example_parse (single_root [cu ''.{'', cu ''}'']) = Inr None
   \<and> parseBuildZigZon example_parse (single_root (example_manifest (cu ''latest''))) = Inr None
   \<and> (\<exists>m. parseBuildZigZon example_parse (single_root manifest_with_version) = Inr (Some m)
          \<and> minimumZigVersion m = v0_13_0
          \<and> minimumZigVersionSourceRange m = Range (Position 2 28) (Position 2 34)
          \<and> offsetAt (document m) (Position 2 28) = 58
          \<and> offsetAt (document m) (Position 2 34) = 64
          \<and> take 6 (drop 58 (getText (document m))) = cu ''0.13.0''
          \<and> getText_range (document m) (Range (Position 2 28) (Position 2 34))
              = Some (cu ''0.13.0''))"
proof -
  note T = parseBuildZigZon_null_or_exact
  have a: "parseBuildZigZon example_parse no_workspace = Inr None"
    using T[of no_workspace example_parse]
    by (simp add: getWorkspaceFolder_def no_workspace_def)
  let ?w1 = "single_root [cu ''.{'', cu ''}'']"
  let ?d1 = "\<lparr>doc_uri = ''/proj/build.zig.zon'', doc_lines = [cu ''.{'', cu ''}''], eol = CRLF\<rparr>"
  have "getWorkspaceFolder ?w1 = Some \<lparr>uri = ''/proj''\<rparr>
      \<and> openTextDocument ?w1 (joinPath (uri \<lparr>uri = ''/proj''\<rparr>) ''build.zig.zon'') = Some ?d1
      \<and> regex_exec (getText ?d1) = None"
    by (simp add: parse_eval fixture_defs)
  with T[of ?w1 example_parse] have b: "parseBuildZigZon example_parse ?w1 = Inr None"
    by blast
  let ?w2 = "single_root (example_manifest (cu ''latest''))"
  let ?d2 = "\<lparr>doc_uri = ''/proj/build.zig.zon'', doc_lines = example_manifest (cu ''latest''),
              eol = CRLF\<rparr>"
  have "\<exists>idx m0. getWorkspaceFolder ?w2 = Some \<lparr>uri = ''/proj''\<rparr>
      \<and> openTextDocument ?w2 (joinPath (uri \<lparr>uri = ''/proj''\<rparr>) ''build.zig.zon'') = Some ?d2
      \<and> regex_exec (getText ?d2) = Some (idx, m0, cu ''latest'')
      \<and> example_parse (cu ''latest'') = None"
    by (simp add: parse_eval fixture_defs)
  with T[of ?w2 example_parse] have c: "parseBuildZigZon example_parse ?w2 = Inr None"
    by blast
  let ?w3 = "single_root manifest_with_version"
  define m where "m = \<lparr>document = \<lparr>doc_uri = ''/proj/build.zig.zon'',
                                      doc_lines = manifest_with_version, eol = CRLF\<rparr>,
                         minimumZigVersion = v0_13_0,
                         minimumZigVersionSourceRange =
                           Range (Position 2 28) (Position 2 34)\<rparr>"
  have m: "parseBuildZigZon example_parse ?w3 = Inr (Some m)"
    using example_parse_result2 by (simp add: m_def)
  have mv: "minimumZigVersion m = v0_13_0"
    and mr: "minimumZigVersionSourceRange m = Range (Position 2 28) (Position 2 34)"
    and md: "document m = \<lparr>doc_uri = ''/proj/build.zig.zon'',
                           doc_lines = manifest_with_version, eol = CRLF\<rparr>"
    by (simp_all add: m_def)
  from m mv mr T[of ?w3 example_parse] obtain idx pre vs rest where
    vs: "example_parse vs = Some v0_13_0"
    and dr: "drop idx (getText (document m)) = pre @ 34 # vs @ 34 # rest"
    and o1: "offsetAt (document m) (Position 2 28) = idx + length pre + 1"
    and o2: "offsetAt (document m) (Position 2 34) = idx + length pre + 1 + length vs"
    and gr: "getText_range (document m) (Range (Position 2 28) (Position 2 34)) = Some vs"
    by auto
  from vs have v: "vs = cu ''0.13.0''"
    by (auto simp: example_parse_def v0_12_0_def v0_13_0_def cu_def split: if_splits)
  from md have o: "offsetAt (document m) (Position 2 28) = 58"
    by (simp add: offsetAt_def manifest_with_version_def cu_def numeral_2_eq_2)
  have "drop (idx + length pre + 1) (getText (document m))
      = drop (length pre + 1) (drop idx (getText (document m)))"
    by (simp add: add.commute add.left_commute)
  also have "\<dots> = vs @ 34 # rest" using dr by simp
  finally have tk: "take (length vs) (drop (idx + length pre + 1) (getText (document m))) = vs"
    by simp
  have l6: "length vs = 6" using v by (simp add: cu_def)
  have e58: "idx + length pre + 1 = 58" using o o1 by simp
  have t: "take 6 (drop 58 (getText (document m))) = cu ''0.13.0''"
    using tk[unfolded l6 e58] v by simp
  from o o1 o2 v have o': "offsetAt (document m) (Position 2 34) = 64" by (simp add: cu_def)
  from m mv mr o o' t gr v a b c show ?thesis by blast
qed

section \<open>The first workspace folder\<close>

lemma getWorkspaceFolder_Cons: "workspaceFolders w = Some (f # fs) \<Longrightarrow> getWorkspaceFolder w = Some f"
  by (simp add: getWorkspaceFolder_def)

lemma parseBuildZigZon_first_folder:
  assumes "workspaceFolders w = Some (f # fs)" and "workspaceFolders w' = Some (f # fs')"
    and "files w (joinPath (uri f) ''build.zig.zon'') = files w' (joinPath (uri f) ''build.zig.zon'')"
  shows "parseBuildZigZon p w = parseBuildZigZon p w'"
  using assms by (simp add: parseBuildZigZon_def getWorkspaceFolder_Cons openTextDocument_def)

lemma parseBuildZigZon_doc_uri:
  assumes "parseBuildZigZon p w = Inr (Some m)" and "getWorkspaceFolder w = Some f"
  shows "doc_uri (document m) = joinPath (uri f) ''build.zig.zon''"
  using assms
  by (auto simp: parseBuildZigZon_def openTextDocument_def Let_def split: option.splits)

text \<open>
  Claim C10. The operations on the workspace look at the first workspace folder only:
  for two workspaces with the same first folder and the same \<^verbatim>\<open>build.zig.zon\<close> in it,
  whatever their other folders and files are, \<^verbatim>\<open>getWorkspaceFolder\<close> is that folder,
  \<^verbatim>\<open>parseBuildZigZon\<close> returns the same, \<^verbatim>\<open>showUpdateWorkspaceVersionDialog\<close> makes the
  same edits and \<^verbatim>\<open>updateStatus\<close> does the same; and every file an edit writes is the
  \<^verbatim>\<open>.zigversion\<close> or the \<^verbatim>\<open>build.zig.zon\<close> of the first folder.
\<close>

theorem first_workspace_folder_only:
  assumes "workspaceFolders w = Some (f # fs)" and "workspaceFolders w' = Some (f # fs')"
    and "files w (joinPath (uri f) ''build.zig.zon'') = files w' (joinPath (uri f) ''build.zig.zon'')"
  shows "getWorkspaceFolder w = Some f
     \<and> parseBuildZigZon p w = parseBuildZigZon p w'
     \<and> showUpdateWorkspaceVersionDialog ask p w v src
         = showUpdateWorkspaceVersionDialog ask p w' v src
     \<and> updateStatus np p ge w zigVersion zigPath ui
         = updateStatus np p ge w' zigVersion zigPath ui
     \<and> (\<forall>es. showUpdateWorkspaceVersionDialog ask p w v src = Inr es \<longrightarrow>
           (\<forall>e\<in>set es. edit_target e = None
                \<or> edit_target e = Some (joinPath (uri f) ''.zigversion'')
                \<or> edit_target e = Some (joinPath (uri f) ''build.zig.zon'')))"
proof (intro conjI allI impI)
  show g: "getWorkspaceFolder w = Some f" using assms(1) by (rule getWorkspaceFolder_Cons)
  have g': "getWorkspaceFolder w' = Some f" using assms(2) by (rule getWorkspaceFolder_Cons)
  show pe: "parseBuildZigZon p w = parseBuildZigZon p w'"
    using assms by (rule parseBuildZigZon_first_folder)
  show "showUpdateWorkspaceVersionDialog ask p w v src
         = showUpdateWorkspaceVersionDialog ask p w' v src"
    unfolding showUpdateWorkspaceVersionDialog_def g g' pe by (rule refl)
  show "updateStatus np p ge w zigVersion zigPath ui
         = updateStatus np p ge w' zigVersion zigPath ui"
    unfolding updateStatus_def pe by (rule refl)
  fix es
  assume es: "showUpdateWorkspaceVersionDialog ask p w v src = Inr es"
  show "\<forall>e\<in>set es. edit_target e = None
                \<or> edit_target e = Some (joinPath (uri f) ''.zigversion'')
                \<or> edit_target e = Some (joinPath (uri f) ''build.zig.zon'')"
  proof
    fix e assume e: "e \<in> set es"
    from es e show "edit_target e = None
                \<or> edit_target e = Some (joinPath (uri f) ''.zigversion'')
                \<or> edit_target e = Some (joinPath (uri f) ''build.zig.zon'')"
      using parseBuildZigZon_doc_uri[OF _ g, of p]
      by (auto simp: showUpdateWorkspaceVersionDialog_def g Let_def
          split: if_splits WantedZigVersionSource.splits option.splits sum.splits)
  qed
qed

text \<open>
  A workspace with two folders, the second with a manifest and a \<^verbatim>\<open>.zigversion\<close> of its
  own, against the workspace with the first folder alone.
\<close>

theorem first_workspace_folder_only_witness:
  "parseBuildZigZon example_parse (multi_root (example_manifest (cu ''0.13.0'')))
     = parseBuildZigZon example_parse (single_root (example_manifest (cu ''0.13.0'')))
   \<and> showUpdateWorkspaceVersionDialog (\<lambda>msg button. Some button) example_parse
        (multi_root (example_manifest (cu ''0.13.0''))) v0_12_0 (Some workspaceBuildZigZon)
     = showUpdateWorkspaceVersionDialog (\<lambda>msg button. Some button) example_parse
        (single_root (example_manifest (cu ''0.13.0''))) v0_12_0 (Some workspaceBuildZigZon)
   \<and> showUpdateWorkspaceVersionDialog (\<lambda>msg button. Some button) example_parse
        (multi_root (example_manifest (cu ''0.13.0''))) v0_12_0 None
     = Inr [CreateFile ''/proj/.zigversion'' True (cu ''0.12.0'')]
   \<and> (edit_target (CreateFile ''/proj/.zigversion'' True (cu ''0.12.0'')) = None
        \<or> edit_target (CreateFile ''/proj/.zigversion'' True (cu ''0.12.0''))
            = Some (joinPath ''/proj'' ''.zigversion'')
        \<or> edit_target (CreateFile ''/proj/.zigversion'' True (cu ''0.12.0''))
            = Some (joinPath ''/proj'' ''build.zig.zon''))"
proof -
  let ?w = "multi_root (example_manifest (cu ''0.13.0''))"
  let ?w' = "single_root (example_manifest (cu ''0.13.0''))"
  let ?ask = "\<lambda>(msg::jsstring) (button::string). Some button"
  have 1: "workspaceFolders ?w = Some (\<lparr>uri = ''/proj''\<rparr> # [\<lparr>uri = ''/other''\<rparr>])"
    by (simp add: multi_root_def)
  have 2: "workspaceFolders ?w' = Some (\<lparr>uri = ''/proj''\<rparr> # [])"
    by (simp add: single_root_def)
  have 3: "files ?w (joinPath (uri \<lparr>uri = ''/proj''\<rparr>) ''build.zig.zon'')
         = files ?w' (joinPath (uri \<lparr>uri = ''/proj''\<rparr>) ''build.zig.zon'')"
    by (simp add: multi_root_def single_root_def joinPath_def)
  note T = first_workspace_folder_only[OF 1 2 3]
  have e: "showUpdateWorkspaceVersionDialog ?ask example_parse ?w v0_12_0 None
     = Inr [CreateFile ''/proj/.zigversion'' True (cu ''0.12.0'')]"
    by (simp add: showUpdateWorkspaceVersionDialog_def getWorkspaceFolder_def multi_root_def
        truthy_def joinPath_def v0_12_0_def)
  from T[of example_parse ?ask v0_12_0 None] e
  have "\<forall>x\<in>set [CreateFile ''/proj/.zigversion'' True (cu ''0.12.0'')].
          edit_target x = None
          \<or> edit_target x = Some (joinPath (uri \<lparr>uri = ''/proj''\<rparr>) ''.zigversion'')
          \<or> edit_target x = Some (joinPath (uri \<lparr>uri = ''/proj''\<rparr>) ''build.zig.zon'')"
    by simp
  then have t: "edit_target (CreateFile ''/proj/.zigversion'' True (cu ''0.12.0'')) = None
        \<or> edit_target (CreateFile ''/proj/.zigversion'' True (cu ''0.12.0''))
            = Some (joinPath ''/proj'' ''.zigversion'')
        \<or> edit_target (CreateFile ''/proj/.zigversion'' True (cu ''0.12.0''))
            = Some (joinPath ''/proj'' ''build.zig.zon'')"
    by simp
  from T[of example_parse ?ask v0_12_0 "Some workspaceBuildZigZon"] e t
  show ?thesis by blast
qed

section \<open>The triggers of a refresh\<close>

text \<open>
  Claim C8, as the code has it. The function behind \<^verbatim>\<open>refreshZigInstallation\<close> calls
  \<^verbatim>\<open>installZig\<close> when the \<^verbatim>\<open>zig.path\<close> setting is undefined or empty and
  \<^verbatim>\<open>updateStatus\<close> otherwise. The events that call it are those of the two file watchers,
  the end of \<^verbatim>\<open>setupZig\<close>, a change of \<^verbatim>\<open>zig.version\<close>, and a change of \<^verbatim>\<open>zig.path\<close>
  whose resolution reports no error; for each of them \<^verbatim>\<open>installZig\<close> runs if and only if
  no path is configured, \<^verbatim>\<open>updateStatus\<close> runs if and only if one is, and
  \<^verbatim>\<open>selectVersionAndInstall\<close> does not run. The command \<^verbatim>\<open>zig.install\<close> calls
  \<^verbatim>\<open>selectVersionAndInstall\<close>, whatever the setting is.
\<close>

theorem refresh_installs_iff_no_path:
  "refreshZigInstallation zig_path =
     (if zig_path = None \<or> zig_path = Some [] then [InstallZig] else [UpdateStatus])
   \<and> (RefreshZigInstallation \<in> set (dispatch resolved ev) \<longleftrightarrow>
        (case ev of
           FileSystemEvent watcher e \<Rightarrow> True
         | SetupZigEnd \<Rightarrow> True
         | DidChangeConfiguration affects \<Rightarrow>
             affects ''zig.version'' \<or> (affects ''zig.path'' \<and> resolved \<noteq> Undefined)
         | _ \<Rightarrow> False))
   \<and> (RefreshZigInstallation \<in> set (dispatch resolved ev) \<longrightarrow>
        (InstallZig \<in> set (calls_of zig_path resolved ev) \<longleftrightarrow> \<not> truthy zig_path)
        \<and> (UpdateStatus \<in> set (calls_of zig_path resolved ev) \<longleftrightarrow> truthy zig_path)
        \<and> SelectVersionAndInstall \<notin> set (calls_of zig_path resolved ev))
   \<and> calls_of zig_path resolved (CommandInvoked ''zig.install'') = [SelectVersionAndInstall]"
proof (intro conjI impI)
  show "refreshZigInstallation zig_path =
     (if zig_path = None \<or> zig_path = Some [] then [InstallZig] else [UpdateStatus])"
    by (auto simp: refreshZigInstallation_def truthy_def split: option.splits)
  show "RefreshZigInstallation \<in> set (dispatch resolved ev) \<longleftrightarrow>
        (case ev of
           FileSystemEvent watcher e \<Rightarrow> True
         | SetupZigEnd \<Rightarrow> True
         | DidChangeConfiguration affects \<Rightarrow>
             affects ''zig.version'' \<or> (affects ''zig.path'' \<and> resolved \<noteq> Undefined)
         | _ \<Rightarrow> False)"
    by (cases ev; cases resolved) (auto simp: dispatch_def)
  show "calls_of zig_path resolved (CommandInvoked ''zig.install'') = [SelectVersionAndInstall]"
    by (simp add: calls_of_def dispatch_def)
next
  assume r: "RefreshZigInstallation \<in> set (dispatch resolved ev)"
  show "InstallZig \<in> set (calls_of zig_path resolved ev) \<longleftrightarrow> \<not> truthy zig_path"
    using r by (cases ev; cases resolved)
      (auto simp: calls_of_def dispatch_def refreshZigInstallation_def split: if_splits)
  show "UpdateStatus \<in> set (calls_of zig_path resolved ev) \<longleftrightarrow> truthy zig_path"
    using r by (cases ev; cases resolved)
      (auto simp: calls_of_def dispatch_def refreshZigInstallation_def split: if_splits)
  show "SelectVersionAndInstall \<notin> set (calls_of zig_path resolved ev)"
    using r by (cases ev; cases resolved)
      (auto simp: calls_of_def dispatch_def refreshZigInstallation_def split: if_splits)
qed

theorem refresh_installs_iff_no_path_witness:
  "RefreshZigInstallation \<in> set (dispatch Null (FileSystemEvent watcher2 DidChange))
   \<and> InstallZig \<in> set (calls_of None Null (FileSystemEvent watcher2 DidChange))
   \<and> UpdateStatus \<in> set (calls_of (Some ''/usr/bin/zig'')
        (ExeWithVersion ''/usr/bin/zig'' v0_13_0) (FileSystemEvent watcher2 DidChange))
   \<and> InstallZig \<notin> set (calls_of (Some ''/usr/bin/zig'')
        (ExeWithVersion ''/usr/bin/zig'' v0_13_0) (FileSystemEvent watcher2 DidChange))"
proof -
  let ?ev = "FileSystemEvent watcher2 DidChange"
  have r: "RefreshZigInstallation \<in> set (dispatch resolved ?ev)" for resolved
    by (simp add: dispatch_def)
  have t: "\<not> truthy None" "truthy (Some ''/usr/bin/zig'')" by (simp_all add: truthy_def)
  from refresh_installs_iff_no_path[of None Null ?ev]
    refresh_installs_iff_no_path[of "Some ''/usr/bin/zig''"
      "ExeWithVersion ''/usr/bin/zig'' v0_13_0" ?ev] r t
  show ?thesis by blast
qed

text \<open>
  Claim C8 as stated fails for the explicit command: with a path configured,
  \<^verbatim>\<open>zig.install\<close> does not update the status, it calls \<^verbatim>\<open>selectVersionAndInstall\<close>. And
  a change of \<^verbatim>\<open>zig.path\<close> to a path whose resolution reports an error calls nothing: the
  status is not updated.
\<close>

theorem explicit_command_counterexample:
  "truthy (Some ''/usr/bin/zig'')
   \<and> calls_of (Some ''/usr/bin/zig'') (ExeWithVersion ''/usr/bin/zig'' v0_13_0)
        (CommandInvoked ''zig.install'') = [SelectVersionAndInstall]
   \<and> truthy (Some ''/bad/zig'')
   \<and> calls_of (Some ''/bad/zig'') Undefined (DidChangeConfiguration (\<lambda>k. k = ''zig.path''))
       = []"
  by (simp add: truthy_def calls_of_def dispatch_def)

section \<open>The engine of the specification: properties\<close>

text \<open>
  Claim C6. \<^verbatim>\<open>resolve()\<close> takes the first source that is present, in the order pinned
  file, manifest minimum version, configuration setting, latest stable: a project with
  a pinned version file resolves to the pinned version with the source
  \<open>PinnedFile\<close>, whatever its manifest and the configuration say.
\<close>

theorem resolve_priority:
  "(pinnedVersion p = Some v \<longrightarrow> resolve (Some p) configured = (ExactVersion v, PinnedFile))
   \<and> (pinnedVersion p = None \<and> manifestMinimumVersion p = Some m \<longrightarrow>
        resolve (Some p) configured = (MinimumVersion m, ManifestMinimum))
   \<and> (pinnedVersion p = None \<and> manifestMinimumVersion p = None \<longrightarrow>
        resolve (Some p) configured = resolve None configured)
   \<and> resolve None (Some c) = (ExactVersion c, ConfigurationSetting)
   \<and> resolve None None = (LatestStable, Fallback)"
  by (simp add: resolve_def)

theorem resolve_priority_witness:
  "resolve (Some \<lparr>pinnedVersion = Some (cu ''0.12.0''),
                  manifestMinimumVersion = Some (cu ''0.13.0'')\<rparr>) (Some (cu ''0.11.0''))
     = (ExactVersion (cu ''0.12.0''), PinnedFile)
   \<and> resolve (Some \<lparr>pinnedVersion = None,
                  manifestMinimumVersion = Some (cu ''0.13.0'')\<rparr>) (Some (cu ''0.11.0''))
     = (MinimumVersion (cu ''0.13.0''), ManifestMinimum)
   \<and> resolve (Some \<lparr>pinnedVersion = None, manifestMinimumVersion = None\<rparr>)
        (Some (cu ''0.11.0''))
     = (ExactVersion (cu ''0.11.0''), ConfigurationSetting)"
  using resolve_priority[of "\<lparr>pinnedVersion = Some (cu ''0.12.0''),
                  manifestMinimumVersion = Some (cu ''0.13.0'')\<rparr>" "cu ''0.12.0''"
          "Some (cu ''0.11.0'')" "cu ''0.13.0'' " "cu ''0.11.0''"]
    resolve_priority[of "\<lparr>pinnedVersion = None,
                  manifestMinimumVersion = Some (cu ''0.13.0'')\<rparr>" "cu ''0.12.0''"
          "Some (cu ''0.11.0'')" "cu ''0.13.0'' " "cu ''0.11.0''"]
    resolve_priority[of "\<lparr>pinnedVersion = None, manifestMinimumVersion = None\<rparr>"
          "cu ''0.12.0''" "Some (cu ''0.11.0'')" "cu ''0.13.0'' " "cu ''0.11.0''"]
  by simp

lemma try_sources_trace:
  "try_sources att us = (tried, r) \<Longrightarrow>
     tried = take (length tried) us
     \<and> (\<forall>u\<in>set (butlast tried). att u = None)
     \<and> (case r of
          Some i \<Rightarrow> tried \<noteq> [] \<and> att (last tried) = Some i
        | None \<Rightarrow> tried = us \<and> (\<forall>u\<in>set us. att u = None))"
proof (induction us arbitrary: tried r)
  case Nil
  then show ?case by auto
next
  case (Cons u us)
  show ?case
  proof (cases "att u")
    case (Some i)
    with Cons.prems have "tried = [u]" "r = Some i" by auto
    with Some show ?thesis by simp
  next
    case None
    obtain tried' r' where t: "try_sources att us = (tried', r')" by (cases "try_sources att us")
    with None Cons.prems have eq: "tried = u # tried'" "r = r'" by auto
    from Cons.IH[OF t] have ih: "tried' = take (length tried') us"
      "\<forall>x\<in>set (butlast tried'). att x = None"
      "case r' of Some i \<Rightarrow> tried' \<noteq> [] \<and> att (last tried') = Some i
        | None \<Rightarrow> tried' = us \<and> (\<forall>x\<in>set us. att x = None)" by auto
    have 1: "tried = take (length tried) (u # us)" using eq ih(1) by simp
    have 2: "\<forall>x\<in>set (butlast tried). att x = None"
      using eq ih(2) None by (cases tried') auto
    have 3: "case r of
          Some i \<Rightarrow> tried \<noteq> [] \<and> att (last tried) = Some i
        | None \<Rightarrow> tried = u # us \<and> (\<forall>x\<in>set (u # us). att x = None)"
      using eq ih(3) None by (cases r') auto
    from 1 2 3 show ?thesis by blast
  qed
qed

text \<open>
  Claim C3. \<^verbatim>\<open>fetchIndex(channel)\<close> tries the canonical URL of the channel first and
  then the mirrors in the listed order: the sources tried are a prefix of that list,
  not empty and no longer than it; every source tried but the last has failed; a
  result is the index of the last source tried; the failure is \<^verbatim>\<open>IndexUnavailable\<close>,
  and only after every source has failed. When the canonical URL fails and the first
  mirror gives an index, that index is returned and no other mirror is tried.
\<close>

theorem fetchIndex_first_success:
  assumes "fetchIndex cfg http parseIndex channel = (tried, r)"
  shows "tried = take (length tried) (canonical_source cfg channel # mirrorUrls cfg)
     \<and> tried \<noteq> []
     \<and> length tried \<le> 1 + length (mirrorUrls cfg)
     \<and> (\<forall>u\<in>set (butlast tried). attempt http parseIndex u = None)
     \<and> (\<forall>i. r = Inr i \<longrightarrow> attempt http parseIndex (last tried) = Some i)
     \<and> (\<forall>e. r = Inl e \<longrightarrow> e = IndexUnavailable
            \<and> tried = canonical_source cfg channel # mirrorUrls cfg
            \<and> (\<forall>u\<in>set tried. attempt http parseIndex u = None))
     \<and> (\<forall>m ms i. mirrorUrls cfg = m # ms
            \<and> attempt http parseIndex (canonical_source cfg channel) = None
            \<and> attempt http parseIndex m = Some i
            \<longrightarrow> tried = [canonical_source cfg channel, m] \<and> r = Inr i)"
proof -
  let ?att = "attempt http parseIndex"
  let ?srcs = "canonical_source cfg channel # mirrorUrls cfg"
  obtain r' where t: "try_sources ?att ?srcs = (tried, r')"
    and r: "r = (case r' of Some i \<Rightarrow> Inr i | None \<Rightarrow> Inl IndexUnavailable)"
    using assms by (auto simp: fetchIndex_def split: prod.splits option.splits)
  from try_sources_trace[OF t] have
    p: "tried = take (length tried) ?srcs"
    and b: "\<forall>u\<in>set (butlast tried). ?att u = None"
    and c: "case r' of Some i \<Rightarrow> tried \<noteq> [] \<and> ?att (last tried) = Some i
             | None \<Rightarrow> tried = ?srcs \<and> (\<forall>u\<in>set ?srcs. ?att u = None)"
    by auto
  have ne: "tried \<noteq> []" using c by (cases r') auto
  have len: "length tried \<le> 1 + length (mirrorUrls cfg)"
  proof -
    have "length (take (length tried) ?srcs) \<le> length ?srcs" by (simp del: take_Suc_Cons)
    with p show ?thesis by simp
  qed
  have ok: "\<forall>i. r = Inr i \<longrightarrow> ?att (last tried) = Some i"
    using r c by (cases r') auto
  have bad: "\<forall>e. r = Inl e \<longrightarrow> e = IndexUnavailable \<and> tried = ?srcs
            \<and> (\<forall>u\<in>set tried. ?att u = None)"
    using r c by (cases r') auto
  have mirror: "\<forall>m ms i. mirrorUrls cfg = m # ms \<and> ?att (canonical_source cfg channel) = None
            \<and> ?att m = Some i \<longrightarrow> tried = [canonical_source cfg channel, m] \<and> r = Inr i"
  proof (intro allI impI)
    fix m ms i
    assume h: "mirrorUrls cfg = m # ms \<and> ?att (canonical_source cfg channel) = None
            \<and> ?att m = Some i"
    then have "try_sources ?att ?srcs = ([canonical_source cfg channel, m], Some i)" by simp
    with t have "tried = [canonical_source cfg channel, m]" "r' = Some i" by auto
    with r show "tried = [canonical_source cfg channel, m] \<and> r = Inr i" by simp
  qed
  from p ne len b ok bad mirror show ?thesis by blast
qed

theorem fetchIndex_first_success_witness:
  "fetchIndex versionManagerConfig example_http example_parseIndex Stable
     = ([''https://ziglang.org/download'', ''https://pkg.machengine.org/zig''],
        Inr [''0.13.0''])
   \<and> length [''https://ziglang.org/download'', ''https://pkg.machengine.org/zig'']
       \<le> 1 + length (mirrorUrls versionManagerConfig)
   \<and> attempt example_http example_parseIndex ''https://ziglang.org/download'' = None
   \<and> fetchIndex versionManagerConfig (\<lambda>u. NetworkError) example_parseIndex Nightly
     = (''https://ziglang.org/builds'' # mirrorUrls versionManagerConfig,
        Inl IndexUnavailable)"
proof -
  let ?c = "canonical_source versionManagerConfig Stable"
  let ?m = "''https://pkg.machengine.org/zig''"
  obtain tried r where f:
    "fetchIndex versionManagerConfig example_http example_parseIndex Stable = (tried, r)"
    by (cases "fetchIndex versionManagerConfig example_http example_parseIndex Stable")
  have c: "?c = ''https://ziglang.org/download''"
    by (simp add: canonical_source_def versionManagerConfig_def)
  have h: "mirrorUrls versionManagerConfig = ?m # tl (mirrorUrls versionManagerConfig)
     \<and> attempt example_http example_parseIndex ?c = None
     \<and> attempt example_http example_parseIndex ?m = Some [''0.13.0'']"
    by (simp add: c) (simp add: versionManagerConfig_def attempt_def example_http_def
        example_parseIndex_def)
  from fetchIndex_first_success[OF f] h
  have "tried = [?c, ?m] \<and> r = Inr [''0.13.0'']
      \<and> length tried \<le> 1 + length (mirrorUrls versionManagerConfig)"
    by blast
  moreover have "length (mirrorUrls versionManagerConfig) = 5"
    by (simp add: versionManagerConfig_def)
  ultimately have first:
    "fetchIndex versionManagerConfig example_http example_parseIndex Stable
       = ([''https://ziglang.org/download'', ''https://pkg.machengine.org/zig''],
          Inr [''0.13.0''])
     \<and> length [''https://ziglang.org/download'', ''https://pkg.machengine.org/zig'']
       \<le> 1 + length (mirrorUrls versionManagerConfig)
     \<and> attempt example_http example_parseIndex ''https://ziglang.org/download'' = None"
    using f h c by simp
  let ?down = "\<lambda>u::uri. (NetworkError :: string Response)"
  obtain tried' r' where f':
    "fetchIndex versionManagerConfig ?down example_parseIndex Nightly = (tried', r')"
    by (cases "fetchIndex versionManagerConfig ?down example_parseIndex Nightly")
  have "\<exists>e. r' = Inl e"
  proof (cases r')
    case (Inl e)
    then show ?thesis by blast
  next
    case (Inr i)
    with fetchIndex_first_success[OF f']
    have "attempt ?down example_parseIndex (last tried') = Some i" by blast
    then show ?thesis by (simp add: attempt_def)
  qed
  with fetchIndex_first_success[OF f']
  have "r' = Inl IndexUnavailable
      \<and> tried' = canonical_source versionManagerConfig Nightly # mirrorUrls versionManagerConfig"
    by blast
  moreover have "canonical_source versionManagerConfig Nightly = ''https://ziglang.org/builds''"
    by (simp add: canonical_source_def versionManagerConfig_def)
  ultimately show ?thesis using first f' by simp
qed

lemma install_shape:
  assumes "install h dir entry targetVersion src = (steps, dir', r)"
  shows "(\<forall>a. Extracted a \<notin> set steps)
     \<or> (\<exists>u ar sg rest. steps = [Downloaded u, Verified ar sg, Extracted ar] @ rest
           \<and> verify h (trustedPublicKey h) ar sg \<and> (\<forall>a. Extracted a \<notin> set rest))"
  using assms
  by (auto simp: install_def cleanup_def split: option.splits if_splits prod.splits)

lemma install_signature_invalid:
  assumes "install h dir entry targetVersion src = (steps, dir', r)"
    and "entry (hostName h) = Some art" and "download h (tarball art) = Some archive"
    and "\<not> verify h (trustedPublicKey h) archive (signature art)"
  shows "r = Inl SignatureInvalid" and "dir' = dir"
    and "steps = [Downloaded (tarball art), Verified archive (signature art)]"
  using assms by (auto simp: install_def)

text \<open>
  Claim C1. In every run of the Installer an extraction of an archive comes after a
  verification of the signature against these same bytes, and that verification has
  succeeded. When the verification of the downloaded archive fails, the run ends with
  \<^verbatim>\<open>SignatureInvalid\<close> (the Provider in \<^verbatim>\<open>Failed(SignatureInvalid)\<close>), nothing is extracted
  or published, and the installed-versions directory is as it was.
\<close>

theorem install_verifies_before_extraction:
  assumes "install h dir entry targetVersion src = (steps, dir', r)"
  shows "(\<forall>i a. i < length steps \<and> steps ! i = Extracted a \<longrightarrow>
            (\<exists>j<i. \<exists>sg. steps ! j = Verified a sg \<and> verify h (trustedPublicKey h) a sg))
     \<and> (\<forall>art archive. entry (hostName h) = Some art
            \<and> download h (tarball art) = Some archive
            \<and> \<not> verify h (trustedPublicKey h) archive (signature art)
            \<longrightarrow> r = Inl SignatureInvalid \<and> dir' = dir
                \<and> (\<forall>a. Extracted a \<notin> set steps)
                \<and> (\<forall>v. Published v \<notin> set steps)
                \<and> provider_state_after r = Failed SignatureInvalid)"
proof -
  have first: "\<exists>j<i. \<exists>sg. steps ! j = Verified a sg \<and> verify h (trustedPublicKey h) a sg"
    if ia: "i < length steps" "steps ! i = Extracted a" for i a
  proof -
    from ia have mem: "Extracted a \<in> set steps" by (metis nth_mem)
    with install_shape[OF assms] obtain u ar sg rest where
      st: "steps = [Downloaded u, Verified ar sg, Extracted ar] @ rest"
      and v: "verify h (trustedPublicKey h) ar sg" and nr: "\<forall>a. Extracted a \<notin> set rest"
      by blast
    have "i = 2"
    proof (rule ccontr)
      assume "i \<noteq> 2"
      then consider "i = 0" | "i = 1" | "3 \<le> i" by linarith
      then show False
      proof cases
        case 1 with ia st show False by simp
      next
        case 2 with ia st show False by simp
      next
        case 3
        then have "steps ! i = rest ! (i - 3)" using st by (simp add: nth_append numeral_3_eq_3)
        moreover have "i - 3 < length rest" using 3 ia(1) st by simp
        ultimately have "Extracted a \<in> set rest" using ia(2) by (metis nth_mem)
        with nr show False by blast
      qed
    qed
    with ia st have "a = ar" by simp
    with st v \<open>i = 2\<close> show ?thesis by (intro exI[of _ 1]) auto
  qed
  have second: "r = Inl SignatureInvalid \<and> dir' = dir
                \<and> (\<forall>a. Extracted a \<notin> set steps)
                \<and> (\<forall>v. Published v \<notin> set steps)
                \<and> provider_state_after r = Failed SignatureInvalid"
    if "entry (hostName h) = Some art" "download h (tarball art) = Some archive"
       "\<not> verify h (trustedPublicKey h) archive (signature art)" for art archive
    using install_signature_invalid[OF assms that] by (simp add: provider_state_after_def)
  from first second show ?thesis by blast
qed

theorem install_verifies_before_extraction_witness:
  "install example_host empty_directory (example_entry [9, 9]) ''0.13.0'' ConfigurationSetting
     = ([Downloaded ''https://ziglang.org/download/0.13.0/zig.tar.xz'',
         Verified [122, 105, 103] [9, 9]],
        empty_directory, Inl SignatureInvalid)
   \<and> provider_state_after (Inl SignatureInvalid) = Failed SignatureInvalid
   \<and> (\<exists>steps dir' r.
        install example_host empty_directory (example_entry [103, 105, 122]) ''0.13.0''
          ConfigurationSetting = (steps, dir', r)
        \<and> steps ! 2 = Extracted [122, 105, 103]
        \<and> (\<exists>j<2. \<exists>sg. steps ! j = Verified [122, 105, 103] sg
               \<and> verify example_host (trustedPublicKey example_host) [122, 105, 103] sg))"
proof -
  let ?bad = "install example_host empty_directory (example_entry [9, 9]) ''0.13.0''
                ConfigurationSetting"
  obtain steps dir' r where b: "?bad = (steps, dir', r)" by (cases ?bad)
  have st: "steps = [Downloaded ''https://ziglang.org/download/0.13.0/zig.tar.xz'',
         Verified [122, 105, 103] [9, 9]]"
    using b by (simp add: install_def example_host_def example_entry_def)
  have hb: "example_entry [9, 9] (hostName example_host)
        = Some \<lparr>tarball = ''https://ziglang.org/download/0.13.0/zig.tar.xz'', size = None,
                signature = [9, 9]\<rparr>
     \<and> download example_host
          (tarball \<lparr>tarball = ''https://ziglang.org/download/0.13.0/zig.tar.xz'', size = None,
                    signature = [9, 9]\<rparr>) = Some [122, 105, 103]
     \<and> \<not> verify example_host (trustedPublicKey example_host) [122, 105, 103]
          (signature \<lparr>tarball = ''https://ziglang.org/download/0.13.0/zig.tar.xz'',
                      size = None, signature = [9, 9]\<rparr>)"
    by (simp add: example_host_def example_entry_def)
  from install_verifies_before_extraction[OF b] hb
  have bad: "r = Inl SignatureInvalid \<and> dir' = empty_directory
      \<and> provider_state_after r = Failed SignatureInvalid"
    by blast
  let ?good = "install example_host empty_directory (example_entry [103, 105, 122]) ''0.13.0''
                ConfigurationSetting"
  obtain steps2 dir2 r2 where g: "?good = (steps2, dir2, r2)" by (cases ?good)
  have g2: "2 < length steps2 \<and> steps2 ! 2 = Extracted [122, 105, 103]"
    using g by (auto simp: install_def example_host_def example_entry_def cleanup_def
        empty_directory_def)
  with install_verifies_before_extraction[OF g]
  have "\<exists>j<2. \<exists>sg. steps2 ! j = Verified [122, 105, 103] sg
               \<and> verify example_host (trustedPublicKey example_host) [122, 105, 103] sg"
    by blast
  with g g2 b st bad show ?thesis by auto
qed

end
